theory Spec2Isabelle
  imports Main "HOL-Library.AList" "HOL-Library.Sublist"
begin


section \<open>Python values and strings\<close>

text \<open>
  The values that argparse stores in the namespace of \<open>cli.py\<close>: \<open>None\<close>, a bool
  (\<open>store_true\<close>), an int (the logging level), a str, a list (\<open>nargs="*"\<close>) and an open
  file (\<open>argparse.FileType("r")\<close>, identified by its path).
\<close>

datatype pyval =
    PyNone
  | PyBool bool
  | PyInt int
  | PyStr string
  | PyList "pyval list"
  | PyFile string

text \<open>
  \<open>"%s" % v\<close> for the values that reach a format string in \<open>run_cli\<close>: only
  \<open>args.target\<close> does, which is a str once \<open>parse_args\<close> has returned (and \<open>None\<close>
  before). The other values are not rendered.
\<close>

fun py_str :: "pyval \<Rightarrow> string" where
  "py_str (PyStr s) = s"
| "py_str PyNone = ''None''"
| "py_str (PyBool b) = (if b then ''True'' else ''False'')"
| "py_str _ = ''''"

text \<open>\<open>sep.join(xs)\<close>\<close>

fun str_join :: "string \<Rightarrow> string list \<Rightarrow> string" where
  "str_join sep [] = []"
| "str_join sep [x] = x"
| "str_join sep (x # y # ys) = x @ sep @ str_join sep (y # ys)"

text \<open>\<open>s.split(c)\<close> for a one-character separator: always at least one piece.\<close>

fun str_split :: "char \<Rightarrow> string \<Rightarrow> string list" where
  "str_split c [] = [[]]"
| "str_split c (x # xs) =
     (if x = c then [] # str_split c xs
      else (case str_split c xs of
              [] \<Rightarrow> [[x]]
            | p # ps \<Rightarrow> (x # p) # ps))"

text \<open>
  \<open>s.strip()\<close>: whitespace is removed at both ends. The whitespace characters of
  \<open>str.isspace\<close> below code point 256 are 9..13, 28..32, 133 and 160.
\<close>

definition isspace :: "char \<Rightarrow> bool" where
  "isspace c = (of_char c \<in> set [9, 10, 11, 12, 13, 28, 29, 30, 31, 32, 133, 160 :: nat])"

definition strip :: "string \<Rightarrow> string" where
  "strip s = rev (dropWhile isspace (rev (dropWhile isspace s)))"

section \<open>The argument parser of \<open>parse_args\<close>\<close>

text \<open>
  \<open>logging_type\<close>, the \<open>type=\<close> of \<open>--logging\<close>: the dictionary lookup, \<open>None\<close> standing
  for the \<open>ArgumentTypeError\<close>.
\<close>

definition logging_type :: "string \<Rightarrow> int option" where
  "logging_type string =
     map_of [(''critical'', 50), (''error'', 40), (''warning'', 30),
             (''info'', 20), (''debug'', 10), (''trace'', 5)] string"

text \<open>
  One \<open>add_argument\<close> call. \<open>option_strings\<close> is empty for a positional; \<open>dest\<close> is the
  attribute name argparse derives (or the \<open>dest=\<close> given); \<open>Suppress\<close> is the default of
  the \<open>help\<close> and \<open>version\<close> actions, which leave no attribute in the namespace.
\<close>

datatype action_kind = Store | StoreTrue | Version | Help
datatype nargs_spec = One | ZeroOrMore
datatype arg_type = AsStr | LoggingType | FileTypeR
datatype default_spec = Suppress | Default pyval

record argument =
  option_strings :: "string list"
  dest :: string
  action :: action_kind
  nargs :: nargs_spec
  atype :: arg_type
  default :: default_spec
  required :: bool
  choices :: "string list option"

text \<open>An argument as \<open>add_argument\<close> makes it when only names are given.\<close>

definition add_argument :: "string list \<Rightarrow> string \<Rightarrow> argument" where
  "add_argument opts d =
     \<lparr>option_strings = opts, dest = d, action = Store, nargs = One, atype = AsStr,
      default = Default PyNone, required = False, choices = None\<rparr>"

definition store_true :: "string list \<Rightarrow> string \<Rightarrow> argument" where
  "store_true opts d =
     (add_argument opts d)\<lparr>action := StoreTrue, default := Default (PyBool False)\<rparr>"

text \<open>
  The parser \<open>p\<close> built by \<open>parse_args\<close>, in the order of the source; the first entry
  is the \<open>-h/--help\<close> argument that \<open>ArgumentParser\<close> adds itself. \<open>gen_keys\<close> is
  \<open>gen.keys()\<close>, the keys of the generator registry.
\<close>

definition parser :: "string list \<Rightarrow> argument list" where
  "parser gen_keys =
    [(add_argument [''-h'', ''--help''] ''help'')\<lparr>action := Help, default := Suppress\<rparr>,
     (add_argument [''--version''] ''version'')\<lparr>action := Version, default := Suppress\<rparr>,
     (add_argument [''--logging''] ''logging'')
        \<lparr>atype := LoggingType, default := Default (PyInt 20)\<rparr>,
     store_true [''--local''] ''local'',
     store_true [''--legacy''] ''legacy'',
     (add_argument [''-K'', ''--key''] ''cfg_pairs'')\<lparr>nargs := ZeroOrMore\<rparr>,
     store_true [''-D'', ''--dry-run''] ''dry_run'',
     store_true [''-R'', ''--release''] ''release'',
     (add_argument [''-G'', ''--global''] ''global'')\<lparr>atype := FileTypeR\<rparr>,
     add_argument [''-r'', ''--kbd-repo''] ''kbd_repo'',
     (add_argument [''-b'', ''--kbd-branch''] ''kbd_branch'')
        \<lparr>default := Default (PyStr ''main'')\<rparr>,
     add_argument [''--divvunspell-repo''] ''divvunspell_repo'',
     add_argument [''--divvunspell-branch''] ''divvunspell_branch'',
     (add_argument [''-t'', ''--target''] ''target'')
        \<lparr>required := True, choices := Some gen_keys\<rparr>,
     (add_argument [''-o'', ''--output''] ''output'')\<lparr>default := Default (PyStr ''.'')\<rparr>,
     (add_argument [] ''project'')\<lparr>required := True\<rparr>,
     (add_argument [''-f'', ''--flag''] ''flags'')
        \<lparr>nargs := ZeroOrMore, default := Default (PyList [])\<rparr>,
     add_argument [''-l'', ''--layout''] ''layout'',
     add_argument [''--github-username''] ''github_username'',
     add_argument [''--github-token''] ''github_token'',
     add_argument [''-c'', ''--command''] ''command'',
     store_true [''--ci''] ''ci'']"

text \<open>
  The command line as argparse reads it. Scanning the raw strings (abbreviated long
  options, \<open>--opt=value\<close>, how many following strings an option takes) is library code;
  \<open>cli_args\<close> is represented after that scan: \<open>Opt s vs\<close> is one occurrence of the
  option string \<open>s\<close> with the argument strings \<open>vs\<close> it received, \<open>Pos v\<close> a string
  left for the positionals.
\<close>

datatype cli_item = Opt string "string list" | Pos string

type_synonym namespace = "string \<rightharpoonup> pyval"

record parse_state =
  ns :: namespace
  seen :: "string list"
  extras :: "string list"

text \<open>The attributes set before any argument is read: every default but \<open>Suppress\<close>.\<close>

definition set_default :: "namespace \<Rightarrow> argument \<Rightarrow> namespace" where
  "set_default n a =
     (case default a of
        Suppress \<Rightarrow> n
      | Default d \<Rightarrow> (if n (dest a) = None then n(dest a \<mapsto> d) else n))"

definition defaults :: "argument list \<Rightarrow> namespace" where
  "defaults p = foldl set_default Map.empty p"

text \<open>
  \<open>type=\<close> applied to one argument string; \<open>None\<close> is the error argparse reports.
  \<open>readable\<close> tells whether \<open>FileType("r")\<close> can open the path.
\<close>

fun convert :: "(string \<Rightarrow> bool) \<Rightarrow> arg_type \<Rightarrow> string \<Rightarrow> pyval option" where
  "convert readable AsStr v = Some (PyStr v)"
| "convert readable LoggingType v = map_option PyInt (logging_type v)"
| "convert readable FileTypeR v = (if readable v then Some (PyFile v) else None)"

text \<open>
  How \<open>parse_args\<close> ends the process instead of returning. After \<open>--help\<close> and
  \<open>--version\<close> argparse prints the text and exits with status 0. After an error it
  prints the usage and the error to \<open>stderr\<close> and exits with status 2; the error is kept
  here with what its message names: the option strings of the argument, the offending
  string and, for a value outside \<open>choices=\<close>, the choices.
\<close>

datatype argparse_error =
    Invalid_choice "string list" string "string list"
  | Invalid_value "string list" string
  | Wrong_arguments "string list" "string list"
  | Required "string list"
  | Unrecognized "string list"

datatype parse_exit = Exit_help | Exit_version | Exit_error argparse_error

fun exit_status :: "parse_exit \<Rightarrow> int" where
  "exit_status Exit_help = 0"
| "exit_status Exit_version = 0"
| "exit_status (Exit_error e) = 2"

text \<open>One argument string converted by \<open>type=\<close> and checked against \<open>choices=\<close>.\<close>

definition get_value ::
  "(string \<Rightarrow> bool) \<Rightarrow> argument \<Rightarrow> string \<Rightarrow> argparse_error + pyval" where
  "get_value readable a v =
     (case convert readable (atype a) v of
        None \<Rightarrow> Inl (Invalid_value (option_strings a) v)
      | Some x \<Rightarrow>
          (case choices a of
             None \<Rightarrow> Inr x
           | Some cs \<Rightarrow>
               (if v \<in> set cs then Inr x else Inl (Invalid_choice (option_strings a) v cs))))"

fun get_values ::
  "(string \<Rightarrow> bool) \<Rightarrow> argument \<Rightarrow> string list \<Rightarrow> argparse_error + pyval list" where
  "get_values readable a [] = Inr []"
| "get_values readable a (v # vs) =
     (case get_value readable a v of
        Inl e \<Rightarrow> Inl e
      | Inr x \<Rightarrow>
          (case get_values readable a vs of
             Inl e \<Rightarrow> Inl e
           | Inr xs \<Rightarrow> Inr (x # xs)))"

definition setattr :: "parse_state \<Rightarrow> argument \<Rightarrow> pyval \<Rightarrow> parse_state" where
  "setattr st a x = st\<lparr>ns := (ns st)(dest a \<mapsto> x), seen := dest a # seen st\<rparr>"

text \<open>
  One action taken with its argument strings. \<open>Inl\<close> is the exit: after \<open>--help\<close> and
  \<open>--version\<close>, or after an error (a wrong number of arguments, a failed \<open>type=\<close>, a
  value outside \<open>choices=\<close>).
\<close>

definition take_action ::
  "(string \<Rightarrow> bool) \<Rightarrow> argument \<Rightarrow> string list \<Rightarrow> parse_state \<Rightarrow> parse_exit + parse_state" where
  "take_action readable a vs st =
     (case action a of
        Help \<Rightarrow>
          Inl (if vs = [] then Exit_help
               else Exit_error (Wrong_arguments (option_strings a) vs))
      | Version \<Rightarrow>
          Inl (if vs = [] then Exit_version
               else Exit_error (Wrong_arguments (option_strings a) vs))
      | StoreTrue \<Rightarrow>
          (if vs = [] then Inr (setattr st a (PyBool True))
           else Inl (Exit_error (Wrong_arguments (option_strings a) vs)))
      | Store \<Rightarrow>
          (case nargs a of
             One \<Rightarrow>
               (case vs of
                  [v] \<Rightarrow> (case get_value readable a v of
                            Inl e \<Rightarrow> Inl (Exit_error e)
                          | Inr x \<Rightarrow> Inr (setattr st a x))
                | _ \<Rightarrow> Inl (Exit_error (Wrong_arguments (option_strings a) vs)))
           | ZeroOrMore \<Rightarrow>
               (case get_values readable a vs of
                  Inl e \<Rightarrow> Inl (Exit_error e)
                | Inr xs \<Rightarrow> Inr (setattr st a (PyList xs)))))"

definition find_option :: "argument list \<Rightarrow> string \<Rightarrow> argument option" where
  "find_option p s = List.find (\<lambda>a. s \<in> set (option_strings a)) p"

definition next_positional :: "argument list \<Rightarrow> parse_state \<Rightarrow> argument option" where
  "next_positional p st =
     List.find (\<lambda>a. option_strings a = [] \<and> dest a \<notin> set (seen st)) p"

text \<open>
  The items are consumed from left to right. An unknown option string and a positional
  string that no positional argument is left for are collected in \<open>extras\<close> and only
  reported at the end.
\<close>

fun consume ::
  "argument list \<Rightarrow> (string \<Rightarrow> bool) \<Rightarrow> cli_item list \<Rightarrow> parse_state \<Rightarrow> parse_exit + parse_state" where
  "consume p readable [] st = Inr st"
| "consume p readable (Opt s vs # items) st =
     (case find_option p s of
        None \<Rightarrow> consume p readable items (st\<lparr>extras := extras st @ s # vs\<rparr>)
      | Some a \<Rightarrow>
          (case take_action readable a vs st of
             Inl e \<Rightarrow> Inl e
           | Inr st' \<Rightarrow> consume p readable items st'))"
| "consume p readable (Pos v # items) st =
     (case next_positional p st of
        None \<Rightarrow> consume p readable items (st\<lparr>extras := extras st @ [v]\<rparr>)
      | Some a \<Rightarrow>
          (case take_action readable a [v] st of
             Inl e \<Rightarrow> Inl e
           | Inr st' \<Rightarrow> consume p readable items st'))"

definition missing_required :: "argument list \<Rightarrow> parse_state \<Rightarrow> string list" where
  "missing_required p st = [dest a. a \<leftarrow> p, required a, dest a \<notin> set (seen st)]"

text \<open>
  \<open>p.parse_args(args)\<close>: the namespace, or \<open>Inl\<close> the exit. A required argument that
  was not seen, and then any extra string, is an error.
\<close>

definition parse_args ::
  "string list \<Rightarrow> (string \<Rightarrow> bool) \<Rightarrow> cli_item list \<Rightarrow> parse_exit + namespace" where
  "parse_args gen_keys readable args =
     (let p = parser gen_keys in
      case consume p readable args \<lparr>ns = defaults p, seen = [], extras = []\<rparr> of
        Inl e \<Rightarrow> Inl e
      | Inr st \<Rightarrow>
          (if missing_required p st \<noteq> [] then Inl (Exit_error (Required (missing_required p st)))
           else if extras st \<noteq> [] then Inl (Exit_error (Unrecognized (extras st)))
           else Inr (ns st)))"

text \<open>
  Whether argparse reads the items without exiting: none of them is in error and none
  asks for the help or the version.
\<close>

definition consumes :: "string list \<Rightarrow> (string \<Rightarrow> bool) \<Rightarrow> cli_item list \<Rightarrow> bool" where
  "consumes gen_keys readable items =
     (let p = parser gen_keys in
      case consume p readable items \<lparr>ns = defaults p, seen = [], extras = []\<rparr> of
        Inl e \<Rightarrow> False
      | Inr st \<Rightarrow> True)"

section \<open>The collaborators of \<open>run_cli\<close>\<close>

text \<open>
  An exception object, as far as \<open>run_cli\<close> looks at it: which \<open>except\<close> clauses and
  \<open>isinstance\<close> tests it passes, \<open>str\<close> of each of its \<open>args\<close>, \<open>str\<close> of itself, and
  \<open>str\<close> of the \<open>problem\<close> and \<open>problem_mark\<close> of a scanner error.
\<close>

record py_exception =
  is_ScannerError :: bool
  is_Exception :: bool
  is_UserException :: bool
  is_KbdgenException :: bool
  exc_args :: "string list"
  exc_str :: string
  problem :: string
  problem_mark :: string

text \<open>\<open>Exception(msg)\<close>\<close>

definition Exception :: "string \<Rightarrow> py_exception" where
  "Exception msg =
     \<lparr>is_ScannerError = False, is_Exception = True, is_UserException = False,
      is_KbdgenException = False, exc_args = [msg], exc_str = msg,
      problem = ''None'', problem_mark = ''None''\<rparr>"

text \<open>
  A generator instance: its \<open>output_dir\<close> and what \<open>generate\<close> does when called with a
  directory (\<open>None\<close>: it returns; \<open>Some e\<close>: it raises \<open>e\<close>).
\<close>

record generator =
  output_dir :: string
  generate :: "string \<Rightarrow> py_exception option"

text \<open>
  Everything \<open>run_cli\<close> reads from outside \<open>cli.py\<close>: the interpreter and the
  process environment, \<open>repr\<close>, whether a path can be opened for reading,
  \<open>Parser().parse\<close> (it raises, or returns a project or \<open>None\<close>) and the registry
  \<open>gen\<close>, an ordered dictionary from target identifiers to generator constructors
  (a constructor raises or returns an instance). \<open>'p\<close> is the type of projects.
\<close>

record 'p world =
  sys_version :: string
  platform :: string
  environ :: "(string \<times> string) list"
  repr :: "string \<Rightarrow> string"
  readable :: "string \<Rightarrow> bool"
  Parser_parse :: "pyval \<Rightarrow> pyval \<Rightarrow> py_exception + 'p option"
  gen :: "(string \<times> ('p \<Rightarrow> namespace \<Rightarrow> py_exception + generator)) list"

text \<open>
  What \<open>run_cli\<close> does to the outside, in order: calls of the module logger, lines
  printed to \<open>sys.stderr\<close>, \<open>logging.getLogger\<close>, the call of the project parser, the
  construction of the generator of a target with the options it is given, and the call
  of \<open>generate\<close> with a directory.
\<close>

datatype level = Debug | Error | Critical

datatype event =
    Log level string
  | Print_stderr string
  | Get_logger string
  | Parse pyval pyval
  | Construct string namespace
  | Generate string

text \<open>
  The state \<open>run_cli\<close> works on: the level of the module logger, the class attribute
  \<open>HTTPConnection.debuglevel\<close>, and the events so far.
\<close>

record state =
  logger_level :: int
  debuglevel :: int
  trace :: "event list"

definition emit :: "event list \<Rightarrow> state \<Rightarrow> state" where
  "emit es s = s\<lparr>trace := trace s @ es\<rparr>"

text \<open>How a call of \<open>run_cli\<close> ends.\<close>

datatype outcome =
    Returned "int option"
  | Raised py_exception
  | SystemExit int

text \<open>
  Modelled from the spec: the entry point that turns the result of \<open>run_cli\<close> into the
  exit code of the process is not part of \<open>cli.py\<close>. The exit codes of the spec (0 on
  \<open>Done\<close>, 1 on \<open>Failed\<close>) are read off the way \<open>sys.exit\<close> does it: no return value is
  0, an integer is that code, a \<open>SystemExit\<close> carries its code, an exception that is
  not handled is 1.
\<close>

fun exit_code :: "outcome \<Rightarrow> int" where
  "exit_code (Returned None) = 0"
| "exit_code (Returned (Some n)) = n"
| "exit_code (SystemExit c) = c"
| "exit_code (Raised e) = 1"

section \<open>\<open>run_cli\<close>\<close>

definition enable_verbose_requests_log :: "state \<Rightarrow> state" where
  "enable_verbose_requests_log s = emit [Get_logger ''urllib3''] (s\<lparr>debuglevel := 1\<rparr>)"

definition print_diagnostics_lines :: "'p world \<Rightarrow> string list" where
  "print_diagnostics_lines w =
     [''Python version: '' @ repr w (str_join '' '' (str_split CHR 0x0A (sys_version w))),
      ''Platform: '' @ repr w (platform w),
      ''Environment:'']
     @ map (\<lambda>(k, v). ''  '' @ k @ '' = '' @ repr w v) (environ w)"

definition print_diagnostics :: "'p world \<Rightarrow> state \<Rightarrow> state" where
  "print_diagnostics w s = emit (map (Log Debug) (print_diagnostics_lines w)) s"

text \<open>\<open>args.name\<close>; every attribute \<open>run_cli\<close> reads has a default.\<close>

definition attr :: "namespace \<Rightarrow> string \<Rightarrow> pyval" where
  "attr args name = (case args name of None \<Rightarrow> PyNone | Some v \<Rightarrow> v)"

definition bug_report_lines :: "string list" where
  "bug_report_lines =
     [''You should not be seeing this error. Please report this as a bug.'',
      ''To receive a more detailed stacktrace, add `--logging trace` to your build command and submit it with your bug report.'',
      ''URL: <https://github.com/divvun/kbdgen/issues/>'']"

text \<open>
  The \<open>try\<close> block around the project parser with its two \<open>except\<close> clauses:
  \<open>Inr project\<close> when the block is left normally, \<open>Inl\<close> the way \<open>run_cli\<close> ends
  otherwise.
\<close>

definition handle_load :: "py_exception \<Rightarrow> state \<Rightarrow> outcome \<times> state" where
  "handle_load e s =
     (if is_ScannerError e then
        (Returned (Some 1),
         emit [Log Critical (''Error parsing project:'' @ [CHR 0x0A]
                 @ strip (problem e) @ '' '' @ strip (problem_mark e))] s)
      else if is_Exception e then
        (let s1 = emit (map (Log Critical) (exc_args e)) s in
         if is_UserException e then (Returned (Some 1), s1)
         else (Returned (Some 1), emit (map (Log Critical) bug_report_lines) s1))
      else (Raised e, s))"

definition load_project :: "'p world \<Rightarrow> namespace \<Rightarrow> state \<Rightarrow> (outcome + 'p) \<times> state" where
  "load_project w args s =
     (let s1 = emit [Parse (attr args ''project'') (attr args ''cfg_pairs'')] s in
      case Parser_parse w (attr args ''project'') (attr args ''cfg_pairs'') of
        Inl e \<Rightarrow> (case handle_load e s1 of (out, s2) \<Rightarrow> (Inl out, s2))
      | Inr None \<Rightarrow>
          (case handle_load (Exception ''Project parser returned empty project.'') s1 of
             (out, s2) \<Rightarrow> (Inl out, s2))
      | Inr (Some project) \<Rightarrow> (Inr project, s1))"

text \<open>\<open>gen.get(args.target)\<close> and \<open>gen.keys()\<close>\<close>

definition gen_get :: "'p world \<Rightarrow> pyval \<Rightarrow> ('p \<Rightarrow> namespace \<Rightarrow> py_exception + generator) option" where
  "gen_get w t = (case t of PyStr k \<Rightarrow> map_of (gen w) k | _ \<Rightarrow> None)"

definition gen_keys :: "'p world \<Rightarrow> string list" where
  "gen_keys w = map fst (gen w)"

text \<open>The rest of \<open>run_cli\<close>, from the registry lookup to the end of the function.\<close>

definition dispatch :: "'p world \<Rightarrow> namespace \<Rightarrow> 'p \<Rightarrow> state \<Rightarrow> outcome \<times> state" where
  "dispatch w args project s =
     (case gen_get w (attr args ''target'') of
        None \<Rightarrow>
          (Returned (Some 1),
           emit [Print_stderr (''Error: '' @ [CHR 0x27] @ py_str (attr args ''target'')
                                @ [CHR 0x27] @ '' is not a valid target.''),
                 Print_stderr (''Valid targets: '' @ str_join '', '' (gen_keys w))] s)
      | Some generator \<Rightarrow>
          (let s1 = emit [Construct (py_str (attr args ''target'')) args] s in
           case generator project args of
             Inl e \<Rightarrow> (Raised e, s1)
           | Inr x \<Rightarrow>
               (let s2 = emit [Generate (output_dir x)] s1 in
                case generate x (output_dir x) of
                  None \<Rightarrow> (Returned None, s2)
                | Some e \<Rightarrow>
                    (if is_KbdgenException e
                     then (Returned None, emit [Log Error (exc_str e)] s2)
                     else (Raised e, s2)))))"

text \<open>\<open>run_cli\<close> once \<open>parse_args\<close> has returned \<open>args\<close>.\<close>

definition run_args :: "'p world \<Rightarrow> namespace \<Rightarrow> state \<Rightarrow> outcome \<times> state" where
  "run_args w args s =
     (let s1 = print_diagnostics w s;
          s2 = (if attr args ''logging'' = PyInt 5 then enable_verbose_requests_log s1 else s1)
      in case load_project w args s2 of
           (Inl out, s3) \<Rightarrow> (out, s3)
         | (Inr project, s3) \<Rightarrow> dispatch w args project s3)"

definition run_cli :: "'p world \<Rightarrow> cli_item list \<Rightarrow> state \<Rightarrow> outcome \<times> state" where
  "run_cli w cli_args s =
     (case parse_args (gen_keys w) (readable w) cli_args of
        Inl e \<Rightarrow> (SystemExit (exit_status e), s)
      | Inr args \<Rightarrow> run_args w args s)"

text \<open>The events a call added to the trace.\<close>

definition new_events :: "state \<Rightarrow> state \<Rightarrow> event list" where
  "new_events s s' = drop (length (trace s)) (trace s')"

section \<open>Reading a trace\<close>

text \<open>
  What \<open>run_cli\<close> has emitted when the project parser is called: the diagnostics, the
  \<open>getLogger\<close> call of the verbose request log when the level is 5, and the call itself.
\<close>

definition preamble :: "'p world \<Rightarrow> namespace \<Rightarrow> event list" where
  "preamble w args =
     map (Log Debug) (print_diagnostics_lines w)
     @ (if attr args ''logging'' = PyInt 5 then [Get_logger ''urllib3''] else [])
     @ [Parse (attr args ''project'') (attr args ''cfg_pairs'')]"

text \<open>The configuration after the check of the logging level.\<close>

definition configured :: "namespace \<Rightarrow> state \<Rightarrow> state" where
  "configured args s = (if attr args ''logging'' = PyInt 5 then s\<lparr>debuglevel := 1\<rparr> else s)"


text \<open>
  The targets of the generators constructed, the directories \<open>generate\<close> was called
  with, and the messages logged at debug level, in order.
\<close>

fun constructs :: "event list \<Rightarrow> string list" where
  "constructs [] = []"
| "constructs (Construct t options # es) = t # constructs es"
| "constructs (e # es) = constructs es"

fun generates :: "event list \<Rightarrow> string list" where
  "generates [] = []"
| "generates (Generate d # es) = d # generates es"
| "generates (e # es) = generates es"

fun debug_logs :: "event list \<Rightarrow> string list" where
  "debug_logs [] = []"
| "debug_logs (Log Debug m # es) = m # debug_logs es"
| "debug_logs (e # es) = debug_logs es"

text \<open>
  The value of one option in the options each constructed generator was given, and an
  event without the options of a construction.
\<close>

fun constructed_option :: "string \<Rightarrow> event list \<Rightarrow> pyval option list" where
  "constructed_option name [] = []"
| "constructed_option name (Construct t options # es) = options name # constructed_option name es"
| "constructed_option name (e # es) = constructed_option name es"

fun erase_options :: "event \<Rightarrow> event" where
  "erase_options (Construct t options) = Construct t Map.empty"
| "erase_options e = e"



fun parses :: "event list \<Rightarrow> (pyval \<times> pyval) list" where
  "parses [] = []"
| "parses (Parse project cfg_pairs # es) = (project, cfg_pairs) # parses es"
| "parses (e # es) = parses es"

section \<open>The override parser\<close>

text \<open>
  Modelled from the spec: the override parser is part of the project parser, which
  receives the raw \<open>-K\<close> strings from \<open>run_cli\<close> and is not in \<open>cli.py\<close>. An overlay tree
  maps a path segment to a scalar or to a nested tree; it is kept as an association
  list in the order of insertion.
\<close>

datatype overlay = Scalar string | Tree "(string \<times> overlay) list"

text \<open>
  Modelled from the spec: the one failure of the override parser, absent like the parser
  itself.
\<close>

datatype override_error = MalformedOverrideError

text \<open>
  Modelled from the spec: the split of a raw entry (in the absent override parser) on the
  first occurrence of a separator only; \<open>None\<close> when the separator does not occur.
\<close>

fun split_first :: "char \<Rightarrow> string \<Rightarrow> (string \<times> string) option" where
  "split_first c [] = None"
| "split_first c (x # xs) =
     (if x = c then Some ([], xs)
      else (case split_first c xs of
              None \<Rightarrow> None
            | Some (l, r) \<Rightarrow> Some (x # l, r)))"

text \<open>
  Modelled from the spec: one raw entry of the absent override parser, split on the first
  \<open>=\<close> and its path on every \<open>.\<close>; an entry without \<open>=\<close> or with an empty path
  segment is malformed.
\<close>

definition parse_override :: "string \<Rightarrow> override_error + (string list \<times> string)" where
  "parse_override raw =
     (case split_first CHR ''='' raw of
        None \<Rightarrow> Inl MalformedOverrideError
      | Some (path, v) \<Rightarrow>
          (if [] \<in> set (str_split CHR ''.'' path) then Inl MalformedOverrideError
           else Inr (str_split CHR ''.'' path, v)))"

text \<open>
  Modelled from the spec: the insertion of the absent override parser. Inserting a value
  at a path walks the segments; the value
  replaces whatever node is at the end of the path, and a scalar met on the way is
  replaced by a tree that holds the rest of the path.
\<close>

fun insert_at :: "string list \<Rightarrow> string \<Rightarrow> overlay \<Rightarrow> overlay" where
  "insert_at [] v t = Scalar v"
| "insert_at (k # ks) v (Scalar u) = Tree [(k, insert_at ks v (Tree []))]"
| "insert_at (k # ks) v (Tree kvs) =
     Tree (AList.update k
            (insert_at ks v (case map_of kvs k of None \<Rightarrow> Tree [] | Some t \<Rightarrow> t)) kvs)"

text \<open>
  Modelled from the spec: the loop of the absent override parser. The entries are
  inserted in the order given; the first malformed entry fails the whole list.
\<close>

fun apply_overrides :: "string list \<Rightarrow> overlay \<Rightarrow> override_error + overlay" where
  "apply_overrides [] t = Inr t"
| "apply_overrides (raw # raws) t =
     (case parse_override raw of
        Inl e \<Rightarrow> Inl e
      | Inr (path, v) \<Rightarrow> apply_overrides raws (insert_at path v t))"

text \<open>
  Modelled from the spec: \<open>parse_overrides\<close>, the absent override parser, starts from
  the empty tree.
\<close>

definition parse_overrides :: "string list \<Rightarrow> override_error + overlay" where
  "parse_overrides raws = apply_overrides raws (Tree [])"

text \<open>
  Modelled from the spec: flattening an overlay tree (no code of it is in \<open>cli.py\<close>)
  lists its scalars with their paths, in the order of the tree.
\<close>

fun flatten :: "overlay \<Rightarrow> (string list \<times> string) list" where
  "flatten (Scalar v) = [([], v)]"
| "flatten (Tree kvs) =
     concat (map (\<lambda>(k, t). map (\<lambda>(p, v). (k # p, v)) (flatten t)) kvs)"

text \<open>The value found at a path of a tree, when there is a scalar there.\<close>

fun lookup :: "overlay \<Rightarrow> string list \<Rightarrow> string option" where
  "lookup (Scalar v) [] = Some v"
| "lookup (Scalar v) (k # ks) = None"
| "lookup (Tree kvs) [] = None"
| "lookup (Tree kvs) (k # ks) =
     (case map_of kvs k of None \<Rightarrow> None | Some t \<Rightarrow> lookup t ks)"

text \<open>No segment occurs twice in a mapping of the tree.\<close>

fun distinct_keys :: "overlay \<Rightarrow> bool" where
  "distinct_keys (Scalar v) = True"
| "distinct_keys (Tree kvs) =
     (distinct (map fst kvs) \<and> (\<forall>(k, t)\<in>set kvs. distinct_keys t))"

text \<open>
  Two writes are in conflict when the path of one is a prefix of, or equal to, the path
  of the other.
\<close>

definition conflict :: "string list \<Rightarrow> string list \<Rightarrow> bool" where
  "conflict p q = (prefix p q \<or> prefix q p)"

section \<open>An example installation\<close>

text \<open>
  A registry of three targets and a project parser that fails on two bundle names, to
  run the definitions on. The generator of \<open>ios\<close> raises a \<open>KbdgenException\<close> from
  \<open>generate\<close>, the generator of \<open>win\<close> another exception; every generator takes its
  \<open>output_dir\<close> from the \<open>output\<close> option.
\<close>

definition scanner_error :: py_exception where
  "scanner_error =
     \<lparr>is_ScannerError = True, is_Exception = True, is_UserException = False,
      is_KbdgenException = False, exc_args = [], exc_str = ''mapping values are not allowed here'',
      problem = ''mapping values are not allowed here'',
      problem_mark = ''  in project.yaml, line 3, column 7''\<rparr>"

definition build_error :: py_exception where
  "build_error = (Exception ''Build failed'')\<lparr>is_KbdgenException := True\<rparr>"

definition crash :: py_exception where
  "crash = Exception ''list index out of range''"

definition example_generator ::
  "py_exception option \<Rightarrow> string \<Rightarrow> namespace \<Rightarrow> py_exception + generator" where
  "example_generator r project options =
     Inr \<lparr>output_dir = py_str (attr options ''output''), generate = (\<lambda>d. r)\<rparr>"

definition example_world :: "string world" where
  "example_world =
     \<lparr>sys_version = ''3.9.1 (default)'',
      platform = ''Linux-5.10-x86_64'',
      environ = [(''HOME'', ''/root'')],
      repr = (\<lambda>s. [CHR 0x27] @ s @ [CHR 0x27]),
      readable = (\<lambda>path. False),
      Parser_parse =
        (\<lambda>project cfg_pairs.
           if project = PyStr ''empty.kbdgen'' then Inr None
           else if project = PyStr ''bad.kbdgen'' then Inl scanner_error
           else Inr (Some ''project'')),
      gen = [(''android'', example_generator None),
             (''ios'', example_generator (Some build_error)),
             (''win'', example_generator (Some crash))]\<rparr>"

definition init :: state where
  "init = \<lparr>logger_level = 20, debuglevel = 0, trace = []\<rparr>"



lemma new_events_emit [simp]: "new_events s (emit es s) = es"
  by (simp add: new_events_def emit_def)

lemma trace_emit [simp]: "trace (emit es s) = trace s @ es"
  by (simp add: emit_def)

lemma emit_emit [simp]: "emit es (emit ds s) = emit (ds @ es) s"
  by (simp add: emit_def)

lemma logger_level_emit [simp]: "logger_level (emit es s) = logger_level s"
  by (simp add: emit_def)

lemma debuglevel_emit [simp]: "debuglevel (emit es s) = debuglevel s"
  by (simp add: emit_def)

lemma load_project_state:
  "load_project w args (if attr args ''logging'' = PyInt 5
        then enable_verbose_requests_log (print_diagnostics w s) else print_diagnostics w s) =
   (case Parser_parse w (attr args ''project'') (attr args ''cfg_pairs'') of
      Inl e \<Rightarrow> (case handle_load e (emit (preamble w args) (configured args s)) of (out, s2) \<Rightarrow> (Inl out, s2))
    | Inr None \<Rightarrow> (case handle_load (Exception ''Project parser returned empty project.'') (emit (preamble w args) (configured args s)) of (out, s2) \<Rightarrow> (Inl out, s2))
    | Inr (Some project) \<Rightarrow> (Inr project, emit (preamble w args) (configured args s)))"
  by (simp add: load_project_def preamble_def configured_def enable_verbose_requests_log_def print_diagnostics_def emit_def Let_def split: sum.splits option.splits)

lemma run_args_eq:
  "run_args w args s =
   (case Parser_parse w (attr args ''project'') (attr args ''cfg_pairs'') of
      Inl e \<Rightarrow> handle_load e (emit (preamble w args) (configured args s))
    | Inr None \<Rightarrow> handle_load (Exception ''Project parser returned empty project.'') (emit (preamble w args) (configured args s))
    | Inr (Some project) \<Rightarrow> dispatch w args project (emit (preamble w args) (configured args s)))"
  unfolding run_args_def Let_def load_project_state
  by (simp split: sum.splits option.splits prod.splits)

lemma new_events_configured [simp]: "new_events s (emit es (configured args s)) = es"
  by (simp add: new_events_def emit_def configured_def)

lemma constructs_append [simp]: "constructs (xs @ ys) = constructs xs @ constructs ys"
  by (induction xs rule: constructs.induct) simp_all

lemma generates_append [simp]: "generates (xs @ ys) = generates xs @ generates ys"
  by (induction xs rule: generates.induct) simp_all

lemma debug_logs_append [simp]: "debug_logs (xs @ ys) = debug_logs xs @ debug_logs ys"
  by (induction xs rule: debug_logs.induct) simp_all

lemma parses_append [simp]: "parses (xs @ ys) = parses xs @ parses ys"
  by (induction xs rule: parses.induct) simp_all

lemma parses_Log [simp]: "parses (map (Log l) ms) = []"
  by (induction ms) simp_all

lemma constructs_Log [simp]: "constructs (map (Log l) ms) = []"
  by (induction ms) simp_all

lemma generates_Log [simp]: "generates (map (Log l) ms) = []"
  by (induction ms) simp_all

lemma debug_logs_Debug [simp]: "debug_logs (map (Log Debug) ms) = ms"
  by (induction ms) simp_all

lemma debug_logs_Critical [simp]: "debug_logs (map (Log Critical) ms) = []"
  by (induction ms) simp_all

lemma constructs_preamble [simp]: "constructs (preamble w args) = []"
  by (simp add: preamble_def)

lemma generates_preamble [simp]: "generates (preamble w args) = []"
  by (simp add: preamble_def)

lemma parses_preamble [simp]:
  "parses (preamble w args) = [(attr args ''project'', attr args ''cfg_pairs'')]"
  by (simp add: preamble_def)

lemma debug_logs_preamble [simp]: "debug_logs (preamble w args) = print_diagnostics_lines w"
  by (simp add: preamble_def)

text \<open>What the handlers and the dispatch add to the trace.\<close>

lemma emit_Nil [simp]: "emit [] s = s"
  by (simp add: emit_def)

lemma handle_load_events:
  "\<exists>tl. snd (handle_load e s) = emit tl s \<and> constructs tl = [] \<and> generates tl = []
        \<and> debug_logs tl = [] \<and> parses tl = []"
proof -
  consider (scanner) "is_ScannerError e"
    | (user) "\<not> is_ScannerError e" "is_Exception e" "is_UserException e"
    | (internal) "\<not> is_ScannerError e" "is_Exception e" "\<not> is_UserException e"
    | (base) "\<not> is_ScannerError e" "\<not> is_Exception e"
    by blast
  then show ?thesis
  proof cases
    case scanner
    then show ?thesis
      by (intro exI [of _ "[Log Critical (''Error parsing project:'' @ [CHR 0x0A]
                 @ strip (problem e) @ '' '' @ strip (problem_mark e))]"])
         (simp add: handle_load_def)
  next
    case user
    then show ?thesis
      by (intro exI [of _ "map (Log Critical) (exc_args e)"]) (simp add: handle_load_def)
  next
    case internal
    then show ?thesis
      by (intro exI [of _ "map (Log Critical) (exc_args e) @ map (Log Critical) bug_report_lines"])
         (simp add: handle_load_def)
  next
    case base
    then show ?thesis
      by (intro exI [of _ "[]"]) (simp add: handle_load_def)
  qed
qed

lemma dispatch_events:
  "\<exists>tl. snd (dispatch w args project s) = emit tl s \<and> length (constructs tl) \<le> 1
        \<and> length (generates tl) \<le> 1 \<and> debug_logs tl = [] \<and> parses tl = []"
proof (cases "gen_get w (attr args ''target'')")
  case None
  then show ?thesis
    by (intro exI [of _ "[Print_stderr (''Error: '' @ [CHR 0x27] @ py_str (attr args ''target'')
                                @ [CHR 0x27] @ '' is not a valid target.''),
                 Print_stderr (''Valid targets: '' @ str_join '', '' (gen_keys w))]"])
       (simp add: dispatch_def)
next
  case (Some generator)
  show ?thesis
  proof (cases "generator project args")
    case (Inl e)
    with Some show ?thesis
      by (intro exI [of _ "[Construct (py_str (attr args ''target'')) args]"]) (simp add: dispatch_def)
  next
    case (Inr x)
    show ?thesis
    proof (cases "generate x (output_dir x)")
      case None
      with Some Inr show ?thesis
        by (intro exI [of _ "[Construct (py_str (attr args ''target'')) args, Generate (output_dir x)]"])
           (simp add: dispatch_def)
    next
      case (Some e)
      with \<open>gen_get w (attr args ''target'') = Some generator\<close> Inr show ?thesis
        by (cases "is_KbdgenException e")
           (intro exI [of _ "[Construct (py_str (attr args ''target'')) args, Generate (output_dir x),
                  Log Error (exc_str e)]"], simp add: dispatch_def,
            intro exI [of _ "[Construct (py_str (attr args ''target'')) args, Generate (output_dir x)]"],
            simp add: dispatch_def)
    qed
  qed
qed

lemma run_args_events:
  "\<exists>tl. snd (run_args w args s) = emit (preamble w args @ tl) (configured args s)
        \<and> length (constructs tl) \<le> 1 \<and> length (generates tl) \<le> 1 \<and> debug_logs tl = [] \<and> parses tl = []"
proof (cases "Parser_parse w (attr args ''project'') (attr args ''cfg_pairs'')")
  case (Inl e)
  obtain tl where "snd (handle_load e (emit (preamble w args) (configured args s)))
        = emit tl (emit (preamble w args) (configured args s))"
    and "constructs tl = []" "generates tl = []" "debug_logs tl = []" "parses tl = []"
    using handle_load_events by blast
  with Inl show ?thesis by (auto simp add: run_args_eq)
next
  case (Inr r)
  show ?thesis
  proof (cases r)
    case None
    obtain tl where "snd (handle_load (Exception ''Project parser returned empty project.'')
          (emit (preamble w args) (configured args s)))
        = emit tl (emit (preamble w args) (configured args s))"
      and "constructs tl = []" "generates tl = []" "debug_logs tl = []" "parses tl = []"
      using handle_load_events by blast
    with Inr None show ?thesis by (auto simp add: run_args_eq)
  next
    case (Some project)
    obtain tl where "snd (dispatch w args project (emit (preamble w args) (configured args s)))
        = emit tl (emit (preamble w args) (configured args s))"
      and "length (constructs tl) \<le> 1" "length (generates tl) \<le> 1" "debug_logs tl = []" "parses tl = []"
      using dispatch_events [of w args project "emit (preamble w args) (configured args s)"]
      by blast
    with Inr Some show ?thesis by (auto simp add: run_args_eq)
  qed
qed

lemmas parse_eval =
  parse_args_def parser_def add_argument_def store_true_def defaults_def set_default_def
  find_option_def next_positional_def take_action_def get_value_def
  setattr_def missing_required_def logging_type_def

lemmas world_eval =
  example_world_def example_generator_def gen_keys_def gen_get_def attr_def init_def
  scanner_error_def build_error_def crash_def Exception_def

lemma dispatch_generate_raises:
  assumes "gen_get w (attr args ''target'') = Some generator"
      and "generator project args = Inr x"
      and "generate x (output_dir x) = Some e"
  shows "dispatch w args project s =
     (if is_KbdgenException e
      then (Returned None,
            emit [Construct (py_str (attr args ''target'')) args, Generate (output_dir x),
                  Log Error (exc_str e)] s)
      else (Raised e,
            emit [Construct (py_str (attr args ''target'')) args, Generate (output_dir x)] s))"
  apply (simp only: dispatch_def assms(1) option.case Let_def)
  apply (simp only: assms(2) sum.case)
  apply (simp only: assms(3) option.case)
  apply simp
  done

lemma dispatch_generate_returns:
  assumes "gen_get w (attr args ''target'') = Some generator"
      and "generator project args = Inr x"
      and "generate x (output_dir x) = None"
  shows "dispatch w args project s =
     (Returned None,
      emit [Construct (py_str (attr args ''target'')) args, Generate (output_dir x)] s)"
  apply (simp only: dispatch_def assms(1) option.case Let_def)
  apply (simp only: assms(2) sum.case)
  apply (simp only: assms(3) option.case)
  apply simp
  done

lemma example_parse:
  "\<exists>args. parse_args (gen_keys example_world) (readable example_world)
            [Opt ''-t'' [t], Pos ''sme.kbdgen''] = Inr args
      \<and> attr args ''project'' = PyStr ''sme.kbdgen''
      \<and> attr args ''cfg_pairs'' = PyNone
      \<and> attr args ''target'' = PyStr t
      \<and> attr args ''output'' = PyStr ''.''
      \<and> attr args ''logging'' = PyInt 20"
  if "t \<in> {''android'', ''ios'', ''win''}"
  using that by (auto simp add: parse_eval world_eval)
text \<open>What \<open>parse_args\<close> stores for the options the claims are about.\<close>

lemma find_option_mem:
  "find_option p s = Some a \<Longrightarrow> a \<in> set p \<and> s \<in> set (option_strings a)"
  by (auto simp add: find_option_def find_Some_iff)

lemma next_positional_mem:
  "next_positional p st = Some a \<Longrightarrow> a \<in> set p \<and> option_strings a = []"
  by (auto simp add: next_positional_def find_Some_iff)

lemma parser_options:
  "\<forall>a\<in>set (parser keys). s \<in> set (option_strings a) \<longrightarrow>
     ((s = ''-K'' \<or> s = ''--key'') = (dest a = ''cfg_pairs''))
   \<and> ((s = ''-t'' \<or> s = ''--target'') = (dest a = ''target''))
   \<and> ((s = ''-D'' \<or> s = ''--dry-run'') = (dest a = ''dry_run''))"
  by (simp add: parser_def add_argument_def store_true_def)

lemmas option_target = parser_options [rule_format, THEN conjunct2, THEN conjunct1]
lemmas option_dry_run = parser_options [rule_format, THEN conjunct2, THEN conjunct2]

lemma parser_dests:
  "\<forall>a\<in>set (parser keys).
     (dest a = ''cfg_pairs'' \<longrightarrow>
        action a = Store \<and> nargs a = ZeroOrMore \<and> atype a = AsStr \<and> choices a = None)
   \<and> (dest a = ''target'' \<longrightarrow>
        action a = Store \<and> nargs a = One \<and> atype a = AsStr \<and> choices a = Some keys)
   \<and> (dest a = ''dry_run'' \<longrightarrow> action a = StoreTrue)
   \<and> (option_strings a = [] \<longrightarrow> dest a = ''project'')"
  by (simp add: parser_def add_argument_def store_true_def)

lemma parser_target_strings:
  "\<forall>a\<in>set (parser keys). dest a = ''target'' \<longrightarrow> option_strings a = [''-t'', ''--target'']"
  by (simp add: parser_def add_argument_def store_true_def)

lemma parser_has_options:
  "\<forall>s\<in>set [''-K'', ''--key'', ''-t'', ''--target'', ''-D'', ''--dry-run''].
     \<exists>a\<in>set (parser keys). s \<in> set (option_strings a)"
  by (simp add: parser_def add_argument_def store_true_def)

lemma find_option_found:
  assumes "s \<in> set [''-K'', ''--key'', ''-t'', ''--target'', ''-D'', ''--dry-run'']"
  shows "\<exists>a. find_option (parser keys) s = Some a"
proof -
  from assms parser_has_options obtain a where
    "a \<in> set (parser keys)" "s \<in> set (option_strings a)"
    by blast
  then have "find_option (parser keys) s \<noteq> None"
    by (auto simp add: find_option_def find_None_iff)
  then show ?thesis by blast
qed

lemma take_action_ns:
  "take_action rd a vs st = Inr st' \<Longrightarrow>
     \<exists>x. ns st' = (ns st)(dest a \<mapsto> x) \<and> seen st' = dest a # seen st \<and> extras st' = extras st"
  by (auto simp add: take_action_def setattr_def
        split: action_kind.splits nargs_spec.splits list.splits sum.splits if_splits)

lemma take_action_other:
  "take_action rd a vs st = Inr st' \<Longrightarrow> dest a \<noteq> d \<Longrightarrow> ns st' d = ns st d"
  using take_action_ns [of rd a vs st st'] by auto



lemma take_action_target:
  assumes "a \<in> set (parser keys)" and "dest a = ''target''"
    and "take_action rd a vs st = Inr st'"
  shows "\<exists>t\<in>set keys. ns st' ''target'' = Some (PyStr t)"
proof -
  from assms(2) parser_dests [rule_format, OF assms(1)] have p:
    "action a = Store" "nargs a = One" "atype a = AsStr" "choices a = Some keys"
    by simp_all
  from assms(3) p obtain v where v: "vs = [v]"
    by (cases vs; cases "tl vs") (simp_all add: take_action_def)
  show ?thesis
  proof (cases "v \<in> set keys")
    case True
    with p v have "take_action rd a vs st = Inr (setattr st a (PyStr v))"
      by (simp add: take_action_def get_value_def)
    with assms(3) have "st' = setattr st a (PyStr v)"
      by simp
    with True show ?thesis
      by (simp add: setattr_def assms(2))
  next
    case False
    with p v have "take_action rd a vs st
        = Inl (Exit_error (Invalid_choice (option_strings a) v keys))"
      by (simp add: take_action_def get_value_def)
    with assms(3) show ?thesis
      by simp
  qed
qed

lemma take_action_target_bad:
  assumes "a \<in> set (parser keys)" and "dest a = ''target''" and "t \<notin> set keys"
  shows "take_action rd a [t] st = Inl (Exit_error (Invalid_choice [''-t'', ''--target''] t keys))"
proof -
  from assms(2) parser_dests [rule_format, OF assms(1)] have
    "action a = Store" "nargs a = One" "atype a = AsStr" "choices a = Some keys"
    by simp_all
  moreover from assms(2) parser_target_strings [rule_format, OF assms(1)]
  have "option_strings a = [''-t'', ''--target'']"
    by simp
  ultimately show ?thesis
    using assms(3) by (simp add: take_action_def get_value_def)
qed

lemma take_action_dry_run:
  assumes "a \<in> set (parser keys)" and "dest a = ''dry_run''"
    and "take_action rd a vs st = Inr st'"
  shows "ns st' ''dry_run'' = Some (PyBool True)"
proof -
  from assms(2) parser_dests [rule_format, OF assms(1)] have k: "action a = StoreTrue"
    by simp
  show ?thesis
  proof (cases "vs = []")
    case True
    with k have "take_action rd a vs st = Inr (setattr st a (PyBool True))"
      by (simp add: take_action_def)
    with assms(3) have "st' = setattr st a (PyBool True)"
      by simp
    then show ?thesis
      by (simp add: setattr_def assms(2))
  next
    case False
    with k have "take_action rd a vs st = Inl (Exit_error (Wrong_arguments (option_strings a) vs))"
      by (simp add: take_action_def)
    with assms(3) show ?thesis
      by simp
  qed
qed

lemma exit_status_cases: "exit_status e = 0 \<or> exit_status e = 2"
  by (cases e) simp_all

lemma parser_exits:
  "\<forall>a\<in>set (parser keys).
     (action a = Help \<or> action a = Version) \<longrightarrow>
       option_strings a \<noteq> []
     \<and> (\<forall>s\<in>set (option_strings a). s = ''-h'' \<or> s = ''--help'' \<or> s = ''--version'')"
  by (simp add: parser_def add_argument_def store_true_def)

lemma take_action_error:
  "take_action rd a vs st = Inl e \<Longrightarrow> action a \<noteq> Help \<Longrightarrow> action a \<noteq> Version
     \<Longrightarrow> exit_status e = 2"
  by (auto simp add: take_action_def
        split: action_kind.splits nargs_spec.splits list.splits sum.splits if_splits)

lemma consume_error:
  assumes "consume (parser keys) rd items st = Inl e"
    and "\<forall>h vs. Opt h vs \<in> set items \<longrightarrow> h \<noteq> ''-h'' \<and> h \<noteq> ''--help'' \<and> h \<noteq> ''--version''"
  shows "exit_status e = 2"
  using assms
proof (induction items arbitrary: st)
  case Nil
  then show ?case by simp
next
  case (Cons item items)
  have rest: "\<forall>h vs. Opt h vs \<in> set items \<longrightarrow> h \<noteq> ''-h'' \<and> h \<noteq> ''--help'' \<and> h \<noteq> ''--version''"
    using Cons.prems(2) by simp
  show ?case
  proof (cases item)
    case (Opt s vs)
    show ?thesis
    proof (cases "find_option (parser keys) s")
      case None
      with Cons.prems(1) Opt Cons.IH [OF _ rest] show ?thesis
        by simp
    next
      case (Some a)
      from find_option_mem [OF Some] have m: "a \<in> set (parser keys)" "s \<in> set (option_strings a)"
        by simp_all
      have "s \<noteq> ''-h'' \<and> s \<noteq> ''--help'' \<and> s \<noteq> ''--version''"
        using Cons.prems(2) Opt by simp
      with parser_exits [rule_format, OF m(1)] m(2) have k: "action a \<noteq> Help" "action a \<noteq> Version"
        by blast+
      show ?thesis
      proof (cases "take_action rd a vs st")
        case (Inl e')
        with Cons.prems(1) Opt Some have "e = e'"
          by simp
        with take_action_error [OF Inl k] show ?thesis
          by simp
      next
        case (Inr st1)
        with Cons.prems(1) Opt Some Cons.IH [OF _ rest] show ?thesis
          by simp
      qed
    qed
  next
    case (Pos v)
    show ?thesis
    proof (cases "next_positional (parser keys) st")
      case None
      with Cons.prems(1) Pos Cons.IH [OF _ rest] show ?thesis
        by simp
    next
      case (Some a)
      from next_positional_mem [OF Some] have m: "a \<in> set (parser keys)" "option_strings a = []"
        by simp_all
      with parser_exits [rule_format, OF m(1)] have k: "action a \<noteq> Help" "action a \<noteq> Version"
        by blast+
      show ?thesis
      proof (cases "take_action rd a [v] st")
        case (Inl e')
        with Cons.prems(1) Pos Some have "e = e'"
          by simp
        with take_action_error [OF Inl k] show ?thesis
          by simp
      next
        case (Inr st1)
        with Cons.prems(1) Pos Some Cons.IH [OF _ rest] show ?thesis
          by simp
      qed
    qed
  qed
qed

lemma parse_args_error:
  assumes "parse_args keys rd items = Inl e"
    and "\<forall>h vs. Opt h vs \<in> set items \<longrightarrow> h \<noteq> ''-h'' \<and> h \<noteq> ''--help'' \<and> h \<noteq> ''--version''"
  shows "exit_status e = 2"
proof (cases "consume (parser keys) rd items \<lparr>ns = defaults (parser keys), seen = [], extras = []\<rparr>")
  case (Inl e')
  with assms(1) have "e = e'"
    by (simp add: parse_args_def)
  with consume_error [OF Inl assms(2)] show ?thesis
    by simp
next
  case (Inr st)
  with assms(1) show ?thesis
    by (auto simp add: parse_args_def Let_def split: if_splits)
qed

lemma parse_args_consume:
  "parse_args keys rd items = Inr args \<Longrightarrow>
     \<exists>st'. consume (parser keys) rd items \<lparr>ns = defaults (parser keys), seen = [], extras = []\<rparr> = Inr st'
         \<and> ns st' = args \<and> missing_required (parser keys) st' = [] \<and> extras st' = []"
  by (auto simp add: parse_args_def Let_def split: sum.splits if_splits)


lemma missing_required_target:
  "missing_required (parser keys) st = [] \<Longrightarrow> ''target'' \<in> set (seen st)"
  by (simp add: missing_required_def parser_def add_argument_def store_true_def split: if_splits)

text \<open>
  A property of the parse state that every action taken keeps is kept by \<open>consume\<close>.
\<close>

lemma consume_invariant:
  assumes "consume p rd items st = Inr st'" and "I st"
    and step: "\<And>a vs st st1. a \<in> set p \<Longrightarrow> I st \<Longrightarrow> take_action rd a vs st = Inr st1 \<Longrightarrow> I st1"
    and ext: "\<And>st xs. I st \<Longrightarrow> I (st\<lparr>extras := xs\<rparr>)"
  shows "I st'"
  using assms(1,2)
proof (induction items arbitrary: st)
  case Nil
  then show ?case by simp
next
  case (Cons item items)
  show ?case
  proof (cases item)
    case (Opt s vs)
    show ?thesis
    proof (cases "find_option p s")
      case None
      with Cons.prems Opt have "consume p rd items (st\<lparr>extras := extras st @ s # vs\<rparr>) = Inr st'"
        by simp
      from Cons.IH [OF this ext [OF Cons.prems(2)]] show ?thesis .
    next
      case (Some a)
      then obtain st1 where t: "take_action rd a vs st = Inr st1"
        and c: "consume p rd items st1 = Inr st'"
        using Cons.prems Opt by (auto split: sum.splits)
      from find_option_mem [OF Some] have "a \<in> set p" by simp
      from Cons.IH [OF c step [OF this Cons.prems(2) t]] show ?thesis .
    qed
  next
    case (Pos v)
    show ?thesis
    proof (cases "next_positional p st")
      case None
      with Cons.prems Pos have "consume p rd items (st\<lparr>extras := extras st @ [v]\<rparr>) = Inr st'"
        by simp
      from Cons.IH [OF this ext [OF Cons.prems(2)]] show ?thesis .
    next
      case (Some a)
      then obtain st1 where t: "take_action rd a [v] st = Inr st1"
        and c: "consume p rd items st1 = Inr st'"
        using Cons.prems Pos by (auto split: sum.splits)
      from next_positional_mem [OF Some] have "a \<in> set p" by simp
      from Cons.IH [OF c step [OF this Cons.prems(2) t]] show ?thesis .
    qed
  qed
qed

lemma consume_target:
  assumes "consume (parser keys) rd items st = Inr st'"
    and "''target'' \<in> set (seen st) \<longrightarrow> (\<exists>t\<in>set keys. ns st ''target'' = Some (PyStr t))"
  shows "''target'' \<in> set (seen st') \<longrightarrow> (\<exists>t\<in>set keys. ns st' ''target'' = Some (PyStr t))"
proof (rule consume_invariant [OF assms(1), where I = "\<lambda>st. ''target'' \<in> set (seen st) \<longrightarrow> (\<exists>t\<in>set keys. ns st ''target'' = Some (PyStr t))"])
  show "''target'' \<in> set (seen st) \<longrightarrow> (\<exists>t\<in>set keys. ns st ''target'' = Some (PyStr t))"
    by (rule assms(2))
next
  fix a vs st st1
  assume a: "a \<in> set (parser keys)"
    and i: "''target'' \<in> set (seen st) \<longrightarrow> (\<exists>t\<in>set keys. ns st ''target'' = Some (PyStr t))"
    and t: "take_action rd a vs st = Inr st1"
  show "''target'' \<in> set (seen st1) \<longrightarrow> (\<exists>t\<in>set keys. ns st1 ''target'' = Some (PyStr t))"
  proof (cases "dest a = ''target''")
    case True
    with a t show ?thesis
      using take_action_target by blast
  next
    case False
    from take_action_ns [OF t] False i show ?thesis
      by auto
  qed
next
  fix st :: parse_state and xs
  assume "''target'' \<in> set (seen st) \<longrightarrow> (\<exists>t\<in>set keys. ns st ''target'' = Some (PyStr t))"
  then show "''target'' \<in> set (seen (st\<lparr>extras := xs\<rparr>))
      \<longrightarrow> (\<exists>t\<in>set keys. ns (st\<lparr>extras := xs\<rparr>) ''target'' = Some (PyStr t))"
    by simp
qed

lemma parse_args_target:
  assumes "parse_args keys rd items = Inr args"
  shows "\<exists>t\<in>set keys. args ''target'' = Some (PyStr t)"
proof -
  from parse_args_consume [OF assms] obtain st' where
    c: "consume (parser keys) rd items \<lparr>ns = defaults (parser keys), seen = [], extras = []\<rparr> = Inr st'"
    and "ns st' = args" "missing_required (parser keys) st' = []"
    by blast
  with consume_target [OF c] missing_required_target show ?thesis
    by auto
qed

lemma consume_dry_run_kept:
  assumes "consume (parser keys) rd items st = Inr st'"
    and "ns st ''dry_run'' = Some (PyBool True)"
  shows "ns st' ''dry_run'' = Some (PyBool True)"
proof (rule consume_invariant [OF assms(1), where I = "\<lambda>st. ns st ''dry_run'' = Some (PyBool True)"])
  show "ns st ''dry_run'' = Some (PyBool True)"
    by (rule assms(2))
next
  fix a vs st st1
  assume a: "a \<in> set (parser keys)"
    and i: "ns st ''dry_run'' = Some (PyBool True)"
    and t: "take_action rd a vs st = Inr st1"
  show "ns st1 ''dry_run'' = Some (PyBool True)"
  proof (cases "dest a = ''dry_run''")
    case True
    with a t show ?thesis
      using take_action_dry_run by blast
  next
    case False
    with take_action_other [OF t] i show ?thesis
      by simp
  qed
next
  fix st :: parse_state and xs
  assume "ns st ''dry_run'' = Some (PyBool True)"
  then show "ns (st\<lparr>extras := xs\<rparr>) ''dry_run'' = Some (PyBool True)"
    by simp
qed

lemma consume_append:
  "consume p rd (xs @ ys) st =
     (case consume p rd xs st of Inl c \<Rightarrow> Inl c | Inr st1 \<Rightarrow> consume p rd ys st1)"
proof (induction xs arbitrary: st)
  case Nil
  then show ?case by simp
next
  case (Cons item xs)
  then show ?case
    by (cases item) (simp_all split: option.splits sum.splits)
qed

lemma consume_dry_run:
  assumes "consume (parser keys) rd items st = Inr st'"
    and "Opt s vs \<in> set items" and "s = ''-D'' \<or> s = ''--dry-run''"
  shows "ns st' ''dry_run'' = Some (PyBool True)"
proof -
  from assms(2) obtain xs ys where items: "items = xs @ Opt s vs # ys"
    by (auto simp add: in_set_conv_decomp)
  with assms(1) obtain st1 where x: "consume (parser keys) rd xs st = Inr st1"
    and r: "consume (parser keys) rd (Opt s vs # ys) st1 = Inr st'"
    by (auto simp add: consume_append split: sum.splits)
  from assms(3) have "s \<in> set [''-K'', ''--key'', ''-t'', ''--target'', ''-D'', ''--dry-run'']"
    by auto
  from find_option_found [OF this] obtain a where f: "find_option (parser keys) s = Some a"
    by blast
  from r obtain st2 where t: "take_action rd a vs st1 = Inr st2"
    and y: "consume (parser keys) rd ys st2 = Inr st'"
    by (simp add: f split: sum.splits)
  from find_option_mem [OF f] have m: "a \<in> set (parser keys)" "s \<in> set (option_strings a)"
    by simp_all
  from option_dry_run [OF m] assms(3) have "dest a = ''dry_run''"
    by simp
  note this = m(1) this
  from take_action_dry_run [OF this t] have "ns st2 ''dry_run'' = Some (PyBool True)" .
  from consume_dry_run_kept [OF y this] show ?thesis .
qed

lemma consume_bad_target:
  assumes "s = ''-t'' \<or> s = ''--target''" and "t \<notin> set keys"
  shows "consume (parser keys) rd (xs @ Opt s [t] # ys) st =
     (case consume (parser keys) rd xs st of
        Inl e \<Rightarrow> Inl e
      | Inr st1 \<Rightarrow> Inl (Exit_error (Invalid_choice [''-t'', ''--target''] t keys)))"
proof -
  from assms(1) have "s \<in> set [''-K'', ''--key'', ''-t'', ''--target'', ''-D'', ''--dry-run'']"
    by auto
  from find_option_found [OF this] obtain a where f: "find_option (parser keys) s = Some a"
    by blast
  from find_option_mem [OF f] have m: "a \<in> set (parser keys)" "s \<in> set (option_strings a)"
    by simp_all
  from option_target [OF m] assms(1) have "dest a = ''target''"
    by simp
  from take_action_target_bad [OF m(1) this assms(2)] f
  have "consume (parser keys) rd (Opt s [t] # ys) st1
          = Inl (Exit_error (Invalid_choice [''-t'', ''--target''] t keys))" for st1
    by simp
  then show ?thesis
    by (simp add: consume_append split: sum.splits)
qed



lemma parse_args_dry_run:
  assumes "parse_args keys rd items = Inr args"
    and "Opt s vs \<in> set items" and "s = ''-D'' \<or> s = ''--dry-run''"
  shows "args ''dry_run'' = Some (PyBool True)"
proof -
  from parse_args_consume [OF assms(1)] obtain st' where
    "consume (parser keys) rd items \<lparr>ns = defaults (parser keys), seen = [], extras = []\<rparr> = Inr st'"
    "ns st' = args"
    by blast
  from consume_dry_run [OF this(1) assms(2,3)] this(2) show ?thesis
    by simp
qed

lemma parse_args_bad_target:
  assumes "Opt s [t] \<in> set items" and "s = ''-t'' \<or> s = ''--target''" and "t \<notin> set keys"
  shows "\<exists>e. parse_args keys rd items = Inl e"
proof -
  from assms(1) obtain xs ys where items: "items = xs @ Opt s [t] # ys"
    by (auto simp add: in_set_conv_decomp)
  from consume_bad_target [OF assms(2,3), of rd xs ys]
  have "\<exists>e. consume (parser keys) rd items \<lparr>ns = defaults (parser keys), seen = [], extras = []\<rparr>
          = Inl e"
    by (simp add: items split: sum.splits)
  then show ?thesis
    by (auto simp add: parse_args_def)
qed

lemma parse_args_first_bad_target:
  assumes "consumes keys rd before" and "s = ''-t'' \<or> s = ''--target''" and "t \<notin> set keys"
  shows "parse_args keys rd (before @ Opt s [t] # after)
           = Inl (Exit_error (Invalid_choice [''-t'', ''--target''] t keys))"
proof -
  from assms(1) obtain st1 where
    "consume (parser keys) rd before \<lparr>ns = defaults (parser keys), seen = [], extras = []\<rparr> = Inr st1"
    by (auto simp add: consumes_def Let_def split: sum.splits)
  with consume_bad_target [OF assms(2,3), of rd before after]
  show ?thesis
    by (simp add: parse_args_def)
qed




lemma dispatch_unknown:
  assumes "gen_get w (attr args ''target'') = None"
  shows "dispatch w args project s =
     (Returned (Some 1),
      emit [Print_stderr (''Error: '' @ [CHR 0x27] @ py_str (attr args ''target'')
                                @ [CHR 0x27] @ '' is not a valid target.''),
            Print_stderr (''Valid targets: '' @ str_join '', '' (gen_keys w))] s)"
  by (simp only: dispatch_def assms option.case)

lemma dispatch_construct_raises:
  assumes "gen_get w (attr args ''target'') = Some generator"
      and "generator project args = Inl e"
  shows "dispatch w args project s =
     (Raised e, emit [Construct (py_str (attr args ''target'')) args] s)"
  apply (simp only: dispatch_def assms(1) option.case Let_def)
  apply (simp only: assms(2) sum.case)
  done

lemma dispatch_generates:
  assumes "gen_get w (attr args ''target'') = Some generator"
      and "generator project args = Inr x"
  shows "\<exists>out tl. dispatch w args project s =
           (out, emit (Construct (py_str (attr args ''target'')) args # Generate (output_dir x) # tl) s)
         \<and> constructs tl = [] \<and> generates tl = []"
proof (cases "generate x (output_dir x)")
  case None
  have "dispatch w args project s =
     (Returned None,
      emit [Construct (py_str (attr args ''target'')) args, Generate (output_dir x)] s)"
    using dispatch_generate_returns [of w args generator project x s] assms None by simp
  then show ?thesis
    by (intro exI [of _ "Returned None"] exI [of _ "[]"]) simp
next
  case (Some e)
  note d = dispatch_generate_raises [of w args generator project x e s, OF assms Some]
  show ?thesis
  proof (cases "is_KbdgenException e")
    case True
    with d show ?thesis
      by (intro exI [of _ "Returned None"] exI [of _ "[Log Error (exc_str e)]"]) simp
  next
    case False
    with d show ?thesis
      by (intro exI [of _ "Raised e"] exI [of _ "[]"]) simp
  qed
qed

lemma constructed_option_append [simp]:
  "constructed_option name (xs @ ys) = constructed_option name xs @ constructed_option name ys"
  by (induction name xs rule: constructed_option.induct) simp_all

lemma constructed_option_no_constructs:
  "constructs es = [] \<Longrightarrow> constructed_option name es = []"
  by (induction name es rule: constructed_option.induct) simp_all

lemma constructed_option_preamble [simp]: "constructed_option name (preamble w args) = []"
  by (simp add: constructed_option_no_constructs)

text \<open>Two namespaces that the constructor of the generator does not tell apart.\<close>

lemma dispatch_options:
  assumes t: "attr args' ''target'' = attr args ''target''"
    and ctor: "\<And>generator. gen_get w (attr args ''target'') = Some generator
                 \<Longrightarrow> generator project args' = generator project args"
  shows "fst (dispatch w args' project s) = fst (dispatch w args project s)
       \<and> map erase_options (trace (snd (dispatch w args' project s)))
           = map erase_options (trace (snd (dispatch w args project s)))"
proof (cases "gen_get w (attr args ''target'')")
  case None
  from dispatch_unknown [of w args project s, OF None]
       dispatch_unknown [of w args' project s] None t
  show ?thesis by simp
next
  case (Some generator)
  then have g': "gen_get w (attr args' ''target'') = Some generator"
    using t by simp
  show ?thesis
  proof (cases "generator project args")
    case (Inl e)
    then have "generator project args' = Inl e"
      using ctor [OF Some] by simp
    from dispatch_construct_raises [of w args generator project e s, OF Some Inl]
         dispatch_construct_raises [of w args' generator project e s, OF g' this] t
    show ?thesis by simp
  next
    case (Inr x)
    then have c': "generator project args' = Inr x"
      using ctor [OF Some] by simp
    show ?thesis
    proof (cases "generate x (output_dir x)")
      case None
      from dispatch_generate_returns [of w args generator project x s, OF Some Inr None]
           dispatch_generate_returns [of w args' generator project x s, OF g' c' None] t
      show ?thesis by simp
    next
      case (Some e)
      from dispatch_generate_raises
             [of w args generator project x e s, OF \<open>gen_get w (attr args ''target'') = Some generator\<close> Inr Some]
           dispatch_generate_raises [of w args' generator project x e s, OF g' c' Some] t
      show ?thesis by (cases "is_KbdgenException e") simp_all
    qed
  qed
qed

lemma run_args_options:
  assumes same: "\<forall>name. name \<noteq> ''logging'' \<longrightarrow> args' name = args name"
    and lv: "(attr args' ''logging'' = PyInt 5) = (attr args ''logging'' = PyInt 5)"
    and ctor: "\<forall>generator project. gen_get w (attr args ''target'') = Some generator
                 \<longrightarrow> generator project args' = generator project args"
  shows "fst (run_args w args' s) = fst (run_args w args s)
       \<and> map erase_options (new_events s (snd (run_args w args' s)))
           = map erase_options (new_events s (snd (run_args w args s)))"
proof -
  from same have a: "attr args' ''project'' = attr args ''project''"
    "attr args' ''cfg_pairs'' = attr args ''cfg_pairs''"
    "attr args' ''target'' = attr args ''target''"
    by (simp_all add: attr_def)
  have pre: "preamble w args' = preamble w args" "configured args' s = configured args s"
    using a lv by (simp_all add: preamble_def configured_def)
  show ?thesis
  proof (cases "Parser_parse w (attr args ''project'') (attr args ''cfg_pairs'')")
    case (Inl e)
    then show ?thesis
      by (simp add: run_args_eq a pre)
  next
    case (Inr r)
    show ?thesis
    proof (cases r)
      case None
      with Inr show ?thesis
        by (simp add: run_args_eq a pre)
    next
      case (Some project)
      from dispatch_options [of args' args w project "emit (preamble w args) (configured args s)"]
           a(3) ctor
      have "fst (dispatch w args' project (emit (preamble w args) (configured args s)))
              = fst (dispatch w args project (emit (preamble w args) (configured args s)))"
        and "map erase_options
               (trace (snd (dispatch w args' project (emit (preamble w args) (configured args s)))))
           = map erase_options
               (trace (snd (dispatch w args project (emit (preamble w args) (configured args s)))))"
        by blast+
      with Inr Some show ?thesis
        by (simp add: run_args_eq a pre new_events_def drop_map [symmetric])
    qed
  qed
qed

text \<open>The override parser: what an insertion does to the value found at a path.\<close>

lemma conflict_simps [simp]:
  "conflict [] q" "conflict p []"
  "conflict (a # p) (b # q) = (a = b \<and> conflict p q)"
  by (auto simp add: conflict_def)

lemma conflict_refl [simp]: "conflict p p"
  by (simp add: conflict_def)

lemma lookup_empty [simp]: "lookup (Tree []) p = None"
  by (cases p) simp_all

lemma lookup_insert_at:
  "lookup (insert_at q v t) p =
     (if p = q then Some v else if conflict p q then None else lookup t p)"
proof (induction q v t arbitrary: p rule: insert_at.induct)
  case (1 v t)
  then show ?case by (cases p) simp_all
next
  case (2 k ks v u)
  then show ?case by (cases p) simp_all
next
  case (3 k ks v kvs)
  show ?case
  proof (cases p)
    case Nil
    then show ?thesis by simp
  next
    case (Cons k' ps)
    show ?thesis
    proof (cases "k' = k")
      case True
      with Cons "3.IH" [of ps] show ?thesis
        by (simp add: update_conv' split: option.splits)
    next
      case False
      with Cons show ?thesis
        by (simp add: update_conv')
    qed
  qed
qed

lemma set_update_cases:
  "(k', x') \<in> set (AList.update k x kvs) \<Longrightarrow> (k' = k \<and> x' = x) \<or> (k', x') \<in> set kvs"
  by (induction kvs) (auto split: if_splits)

lemma distinct_keys_insert_at:
  "distinct_keys t \<Longrightarrow> distinct_keys (insert_at q v t)"
proof (induction q v t rule: insert_at.induct)
  case (1 v t)
  then show ?case by simp
next
  case (2 k ks v u)
  then show ?case by simp
next
  case (3 k ks v kvs)
  let ?sub = "case map_of kvs k of None \<Rightarrow> Tree [] | Some t \<Rightarrow> t"
  have "distinct_keys ?sub"
    using "3.prems" by (auto split: option.splits dest: map_of_SomeD)
  then have "distinct_keys (insert_at ks v ?sub)"
    by (rule "3.IH")
  with "3.prems" show ?case
    by (auto simp add: distinct_update dest: set_update_cases)
qed

lemma flatten_lookup:
  "distinct_keys t \<Longrightarrow> ((p, v) \<in> set (flatten t)) = (lookup t p = Some v)"
proof (induction t arbitrary: p rule: flatten.induct)
  case (1 u)
  then show ?case by (cases p) auto
next
  case (2 kvs)
  show ?case
  proof (cases p)
    case Nil
    then show ?thesis by auto
  next
    case (Cons k ps)
    have "((k # ps, v) \<in> set (flatten (Tree kvs))) = (\<exists>t. (k, t) \<in> set kvs \<and> (ps, v) \<in> set (flatten t))"
    proof
      assume "(k # ps, v) \<in> set (flatten (Tree kvs))"
      then show "\<exists>t. (k, t) \<in> set kvs \<and> (ps, v) \<in> set (flatten t)"
        by auto
    next
      assume "\<exists>t. (k, t) \<in> set kvs \<and> (ps, v) \<in> set (flatten t)"
      then obtain t where "(k, t) \<in> set kvs" "(ps, v) \<in> set (flatten t)"
        by blast
      then have "(k # ps, v) \<in> set (map (\<lambda>(p, v). (k # p, v)) (flatten t))"
        by force
      with \<open>(k, t) \<in> set kvs\<close> show "(k # ps, v) \<in> set (flatten (Tree kvs))"
        by force
    qed
    also have "\<dots> = (\<exists>t. (k, t) \<in> set kvs \<and> lookup t ps = Some v)"
    proof -
      have "((ps, v) \<in> set (flatten t)) = (lookup t ps = Some v)" if "(k, t) \<in> set kvs" for t
      proof -
        from that "2.prems" have "distinct_keys t"
          by auto
        from "2.IH" [OF that refl this] show ?thesis .
      qed
      then show ?thesis
        by blast
    qed
    also have "\<dots> = (lookup (Tree kvs) (k # ps) = Some v)"
    proof -
      have "((k, t) \<in> set kvs) = (map_of kvs k = Some t)" for t
        using "2.prems" by (simp add: map_of_eq_Some_iff)
      then show ?thesis
        by (simp split: option.splits)
    qed
    finally show ?thesis
      using Cons by simp
  qed
qed

lemma distinct_flatten_entries:
  assumes "distinct (map fst kvs)" and "\<forall>(k, t)\<in>set kvs. distinct (map fst (f t))"
  shows "distinct (map fst (concat (map (\<lambda>(k, t). map (\<lambda>(p, v). (k # p, v)) (f t)) kvs)))"
  using assms
proof (induction kvs)
  case Nil
  then show ?case by simp
next
  case (Cons kv kvs)
  obtain k t where kv: "kv = (k, t)"
    by (cases kv)
  have 1: "distinct (map fst (map (\<lambda>(p, v). (k # p, v)) (f t)))"
  proof -
    have e: "map fst (map (\<lambda>(p, v). (k # p, v)) xs) = map ((#) k) (map fst xs)"
      for xs
      by (induction xs) auto
    have "distinct (map fst (f t))"
      using Cons.prems kv by simp
    then have "distinct (map ((#) k) (map fst (f t)))"
      by (simp only: distinct_map) simp
    then show ?thesis
      by (simp only: e)
  qed
  have 2: "distinct (map fst (concat (map (\<lambda>(k, t). map (\<lambda>(p, v). (k # p, v)) (f t)) kvs)))"
    using Cons by simp
  let ?A = "map (\<lambda>(p, v). (k # p, v)) (f t)"
  let ?B = "concat (map (\<lambda>(k, t). map (\<lambda>(p, v). (k # p, v)) (f t)) kvs)"
  have 3: "hd p \<in> fst ` set kvs \<and> p \<noteq> []" if "p \<in> set (map fst ?B)" for p
    using that by force
  have 4: "hd p = k \<and> p \<noteq> []" if "p \<in> set (map fst ?A)" for p
    using that by force
  have "k \<notin> fst ` set kvs"
    using Cons.prems kv by simp
  with 3 4 have 5: "set (map fst ?A) \<inter> set (map fst ?B) = {}"
    by blast
  have "concat (map (\<lambda>(k, t). map (\<lambda>(p, v). (k # p, v)) (f t)) (kv # kvs)) = ?A @ ?B"
    by (simp add: kv)
  then have "distinct (map fst (concat (map (\<lambda>(k, t). map (\<lambda>(p, v). (k # p, v)) (f t)) (kv # kvs))))
      = (distinct (map fst ?A) \<and> distinct (map fst ?B) \<and> set (map fst ?A) \<inter> set (map fst ?B) = {})"
    by (simp only: map_append distinct_append)
  with 1 2 5 show ?case
    by blast
qed

lemma distinct_flatten:
  "distinct_keys t \<Longrightarrow> distinct (map fst (flatten t))"
proof (induction t rule: flatten.induct)
  case (1 v)
  then show ?case by simp
next
  case (2 kvs)
  have "\<forall>(k, t)\<in>set kvs. distinct (map fst (flatten t))"
    using "2.IH" "2.prems" by auto
  with "2.prems" show ?case
    by (simp add: distinct_flatten_entries)
qed

text \<open>The entries of a list of overrides, and the tree after all of them.\<close>

lemma apply_overrides_foldl:
  "apply_overrides raws t = Inr t' \<Longrightarrow>
     \<exists>ws. map parse_override raws = map Inr ws
        \<and> t' = foldl (\<lambda>t (q, v). insert_at q v t) t ws"
proof (induction raws arbitrary: t)
  case Nil
  then show ?case by simp
next
  case (Cons raw raws)
  then obtain q v where r: "parse_override raw = Inr (q, v)"
    and a: "apply_overrides raws (insert_at q v t) = Inr t'"
    by (auto split: sum.splits)
  from Cons.IH [OF a] obtain ws where
    "map parse_override raws = map Inr ws"
    "t' = foldl (\<lambda>t (q, v). insert_at q v t) (insert_at q v t) ws"
    by blast
  with r show ?case
    by (intro exI [of _ "(q, v) # ws"]) simp
qed

lemma distinct_keys_foldl:
  "distinct_keys t \<Longrightarrow> distinct_keys (foldl (\<lambda>t (q, v). insert_at q v t) t ws)"
  by (induction ws arbitrary: t) (auto simp add: distinct_keys_insert_at)

lemma lookup_foldl:
  "(lookup (foldl (\<lambda>t (q, v). insert_at q v t) t ws) p = Some v) =
     ((\<exists>before after. ws = before @ (p, v) # after \<and> (\<forall>(q, u)\<in>set after. \<not> conflict q p))
      \<or> (lookup t p = Some v \<and> (\<forall>(q, u)\<in>set ws. \<not> conflict q p)))"
proof (induction ws arbitrary: t)
  case Nil
  then show ?case by simp
next
  case (Cons w ws)
  obtain q u where w: "w = (q, u)"
    by (cases w)
  have c: "conflict q p = conflict p q"
    by (auto simp add: conflict_def)
  have s: "(\<exists>before after. (q, u) # ws = before @ (p, v) # after \<and> (\<forall>(q, u)\<in>set after. \<not> conflict q p))
      = ((q = p \<and> u = v \<and> (\<forall>(q, u)\<in>set ws. \<not> conflict q p))
         \<or> (\<exists>before after. ws = before @ (p, v) # after \<and> (\<forall>(q, u)\<in>set after. \<not> conflict q p)))"
    by (auto simp add: Cons_eq_append_conv)
  have "(lookup (foldl (\<lambda>t (q, v). insert_at q v t) t (w # ws)) p = Some v)
      = ((\<exists>before after. ws = before @ (p, v) # after \<and> (\<forall>(q, u)\<in>set after. \<not> conflict q p))
         \<or> (lookup (insert_at q u t) p = Some v \<and> (\<forall>(q, u)\<in>set ws. \<not> conflict q p)))"
    using Cons.IH [of "insert_at q u t"] by (simp add: w)
  also have "\<dots> = ((\<exists>before after. (q, u) # ws = before @ (p, v) # after \<and> (\<forall>(q, u)\<in>set after. \<not> conflict q p))
      \<or> (lookup t p = Some v \<and> (\<forall>(q, u)\<in>set ((q, u) # ws). \<not> conflict q p)))"
    unfolding s by (auto simp add: lookup_insert_at c)
  finally show ?case
    by (simp add: w)
qed

text \<open>The options that reach the constructor of the generator are the parsed namespace.\<close>

lemma run_cli_constructed_option:
  assumes "parse_args (gen_keys w) (readable w) cli_args = Inr args"
      and "Parser_parse w (attr args ''project'') (attr args ''cfg_pairs'') = Inr (Some project)"
      and "gen_get w (attr args ''target'') = Some generator"
  shows "constructed_option name (new_events s (snd (run_cli w cli_args s))) = [args name]"
proof -
  have r: "run_cli w cli_args s
             = dispatch w args project (emit (preamble w args) (configured args s))"
    using assms(1,2) by (simp add: run_cli_def run_args_eq)
  show ?thesis
  proof (cases "generator project args")
    case (Inl e)
    from dispatch_construct_raises
           [of w args generator project e "emit (preamble w args) (configured args s)",
            OF assms(3) Inl]
    show ?thesis
      by (simp add: r)
  next
    case (Inr x)
    from dispatch_generates
           [of w args generator project x "emit (preamble w args) (configured args s)",
            OF assms(3) Inr]
    obtain out tl where
      "dispatch w args project (emit (preamble w args) (configured args s)) =
         (out, emit (Construct (py_str (attr args ''target'')) args # Generate (output_dir x) # tl)
                 (emit (preamble w args) (configured args s)))"
      and "constructs tl = []"
      by blast
    then show ?thesis
      by (simp add: r constructed_option_no_constructs)
  qed
qed

section \<open>The claims\<close>

text \<open>
  C4. When the project parser returns \<open>None\<close>, \<open>run_cli\<close> treats it as an internal
  error: after the call of the parser it logs, at critical severity, the message of the
  exception it raises itself, the request to report a bug, the instruction to run again
  with \<open>--logging trace\<close> and the URL; it returns 1, and no generator is constructed.
\<close>

theorem empty_project_internal_error:
  assumes "parse_args (gen_keys w) (readable w) cli_args = Inr args"
      and "Parser_parse w (attr args ''project'') (attr args ''cfg_pairs'') = Inr None"
  shows "fst (run_cli w cli_args s) = Returned (Some 1) \<and>
         exit_code (fst (run_cli w cli_args s)) = 1 \<and>
         new_events s (snd (run_cli w cli_args s)) =
           preamble w args @
           [Log Critical ''Project parser returned empty project.'',
            Log Critical ''You should not be seeing this error. Please report this as a bug.'',
            Log Critical ''To receive a more detailed stacktrace, add `--logging trace` to your build command and submit it with your bug report.'',
            Log Critical ''URL: <https://github.com/divvun/kbdgen/issues/>''] \<and>
         constructs (new_events s (snd (run_cli w cli_args s))) = []"
  using assms
  by (auto simp add: run_cli_def run_args_eq handle_load_def Exception_def bug_report_lines_def preamble_def)


theorem empty_project_internal_error_witness:
  "fst (run_cli example_world [Opt ''-t'' [''android''], Pos ''empty.kbdgen''] init)
     = Returned (Some 1)
   \<and> constructs (new_events init
        (snd (run_cli example_world [Opt ''-t'' [''android''], Pos ''empty.kbdgen''] init))) = []"
proof -
  have "\<exists>args. parse_args (gen_keys example_world) (readable example_world)
           [Opt ''-t'' [''android''], Pos ''empty.kbdgen''] = Inr args
         \<and> attr args ''project'' = PyStr ''empty.kbdgen''"
    by (simp add: parse_eval world_eval)
  then obtain args where
    p: "parse_args (gen_keys example_world) (readable example_world)
           [Opt ''-t'' [''android''], Pos ''empty.kbdgen''] = Inr args"
    and a: "attr args ''project'' = PyStr ''empty.kbdgen''"
    by blast
  have "Parser_parse example_world (attr args ''project'') (attr args ''cfg_pairs'') = Inr None"
    using a by (simp add: example_world_def)
  from empty_project_internal_error [OF p this, of init] show ?thesis
    by (simp add: bug_report_lines_def)
qed

text \<open>
  C7. In every call of \<open>run_cli\<close> at most one generator is constructed and \<open>generate\<close> is
  called at most once. When the arguments parse, the project loads, the target is in the
  registry, the constructor returns an instance and \<open>generate\<close> returns, \<open>run_cli\<close>
  ends without a return value (exit code 0), having constructed the generator of the
  target and called \<open>generate\<close> exactly once, with the \<open>output_dir\<close> of the instance.
\<close>

theorem one_generator_one_generate:
  "length (constructs (new_events s (snd (run_cli w cli_args s)))) \<le> 1
   \<and> length (generates (new_events s (snd (run_cli w cli_args s)))) \<le> 1
   \<and> (parse_args (gen_keys w) (readable w) cli_args = Inr args
      \<and> Parser_parse w (attr args ''project'') (attr args ''cfg_pairs'') = Inr (Some project)
      \<and> gen_get w (attr args ''target'') = Some generator
      \<and> generator project args = Inr x
      \<and> generate x (output_dir x) = None
      \<longrightarrow> fst (run_cli w cli_args s) = Returned None
          \<and> exit_code (fst (run_cli w cli_args s)) = 0
          \<and> constructs (new_events s (snd (run_cli w cli_args s))) = [py_str (attr args ''target'')]
          \<and> generates (new_events s (snd (run_cli w cli_args s))) = [output_dir x])"
proof -
  have bound: "length (constructs (new_events s (snd (run_cli w cli_args s)))) \<le> 1
     \<and> length (generates (new_events s (snd (run_cli w cli_args s)))) \<le> 1"
  proof (cases "parse_args (gen_keys w) (readable w) cli_args")
    case (Inl c)
    then show ?thesis by (simp add: run_cli_def new_events_def)
  next
    case (Inr a)
    obtain tl where "snd (run_args w a s) = emit (preamble w a @ tl) (configured a s)"
      and "length (constructs tl) \<le> 1" "length (generates tl) \<le> 1"
      using run_args_events by blast
    with Inr show ?thesis by (simp add: run_cli_def)
  qed
  have ok: "fst (run_cli w cli_args s) = Returned None
          \<and> exit_code (fst (run_cli w cli_args s)) = 0
          \<and> constructs (new_events s (snd (run_cli w cli_args s))) = [py_str (attr args ''target'')]
          \<and> generates (new_events s (snd (run_cli w cli_args s))) = [output_dir x]"
    if "parse_args (gen_keys w) (readable w) cli_args = Inr args"
      and "Parser_parse w (attr args ''project'') (attr args ''cfg_pairs'') = Inr (Some project)"
      and "gen_get w (attr args ''target'') = Some generator"
      and "generator project args = Inr x"
      and "generate x (output_dir x) = None"
    using that by (simp add: run_cli_def run_args_eq dispatch_def)
  from bound ok show ?thesis by blast
qed

theorem one_generator_one_generate_witness:
  "fst (run_cli example_world [Opt ''-t'' [''android''], Opt ''-o'' [''build''], Pos ''sme.kbdgen''] init)
     = Returned None
   \<and> generates (new_events init
        (snd (run_cli example_world
               [Opt ''-t'' [''android''], Opt ''-o'' [''build''], Pos ''sme.kbdgen''] init)))
     = [''build'']"
proof -
  let ?cli = "[Opt ''-t'' [''android''], Opt ''-o'' [''build''], Pos ''sme.kbdgen'']"
  have "\<exists>args. parse_args (gen_keys example_world) (readable example_world) ?cli = Inr args
         \<and> attr args ''project'' = PyStr ''sme.kbdgen''
         \<and> attr args ''target'' = PyStr ''android''
         \<and> attr args ''output'' = PyStr ''build''"
    by (simp add: parse_eval world_eval)
  then obtain args where
    p: "parse_args (gen_keys example_world) (readable example_world) ?cli = Inr args"
    and a: "attr args ''project'' = PyStr ''sme.kbdgen''"
           "attr args ''target'' = PyStr ''android''"
           "attr args ''output'' = PyStr ''build''"
    by blast
  let ?x = "\<lparr>output_dir = ''build'', generate = (\<lambda>d. None)\<rparr>"
  have l: "Parser_parse example_world (attr args ''project'') (attr args ''cfg_pairs'')
             = Inr (Some ''project'')"
    using a by (simp add: example_world_def)
  have g: "gen_get example_world (attr args ''target'') = Some (example_generator None)"
    using a by (simp add: example_world_def gen_get_def)
  have c: "example_generator None ''project'' args = Inr ?x"
    using a by (simp add: example_generator_def)
  have r: "generate ?x (output_dir ?x) = None"
    by simp
  from one_generator_one_generate [of init example_world ?cli args "''project''"
        "example_generator None" ?x] p l g c r
  show ?thesis by simp
qed

text \<open>
  C5. When the project parser raises a scanner error, \<open>run_cli\<close> logs one critical
  message, made of the stripped problem and the stripped problem mark, so that the
  message ends with the location marker; it returns 1 instead of raising, and logs
  nothing else.
\<close>

theorem scanner_error_parse_error:
  assumes "parse_args (gen_keys w) (readable w) cli_args = Inr args"
      and "Parser_parse w (attr args ''project'') (attr args ''cfg_pairs'') = Inl e"
      and "is_ScannerError e"
  shows "fst (run_cli w cli_args s) = Returned (Some 1) \<and>
         exit_code (fst (run_cli w cli_args s)) = 1 \<and>
         new_events s (snd (run_cli w cli_args s)) =
           preamble w args @
           [Log Critical (''Error parsing project:'' @ [CHR 0x0A]
                 @ strip (problem e) @ '' '' @ strip (problem_mark e))] \<and>
         suffix (strip (problem_mark e))
           (''Error parsing project:'' @ [CHR 0x0A]
                 @ strip (problem e) @ '' '' @ strip (problem_mark e))"
proof -
  have "suffix (strip (problem_mark e))
           ((''Error parsing project:'' @ [CHR 0x0A] @ strip (problem e) @ '' '')
             @ strip (problem_mark e))"
    by (rule suffix_appendI) simp
  then show ?thesis
    using assms by (simp add: run_cli_def run_args_eq handle_load_def)
qed

theorem scanner_error_parse_error_witness:
  "fst (run_cli example_world [Opt ''-t'' [''android''], Pos ''bad.kbdgen''] init)
     = Returned (Some 1)
   \<and> drop (length (print_diagnostics_lines example_world))
        (new_events init
          (snd (run_cli example_world [Opt ''-t'' [''android''], Pos ''bad.kbdgen''] init)))
     = [Parse (PyStr ''bad.kbdgen'') PyNone,
        Log Critical (''Error parsing project:'' @ [CHR 0x0A]
          @ ''mapping values are not allowed here in project.yaml, line 3, column 7'')]"
proof -
  let ?cli = "[Opt ''-t'' [''android''], Pos ''bad.kbdgen'']"
  have "\<exists>args. parse_args (gen_keys example_world) (readable example_world) ?cli = Inr args
         \<and> attr args ''project'' = PyStr ''bad.kbdgen''
         \<and> attr args ''cfg_pairs'' = PyNone
         \<and> attr args ''logging'' = PyInt 20"
    by (simp add: parse_eval world_eval)
  then obtain args where
    p: "parse_args (gen_keys example_world) (readable example_world) ?cli = Inr args"
    and a: "attr args ''project'' = PyStr ''bad.kbdgen''" "attr args ''cfg_pairs'' = PyNone"
           "attr args ''logging'' = PyInt 20"
    by blast
  have l: "Parser_parse example_world (attr args ''project'') (attr args ''cfg_pairs'')
             = Inl scanner_error"
    using a by (simp add: example_world_def)
  have e: "is_ScannerError scanner_error"
    by (simp add: scanner_error_def)
  from scanner_error_parse_error [OF p l e, of init] a show ?thesis
    by (simp add: preamble_def scanner_error_def strip_def isspace_def)
qed

text \<open>
  C2, as stated, fails: \<open>parse_args\<close> runs before \<open>print_diagnostics\<close>, and a command
  line that argparse rejects (here: no \<open>--target\<close>) ends \<open>run_cli\<close> with nothing logged.
\<close>

theorem diagnostics_unconditional_counterexample:
  "fst (run_cli example_world [Pos ''sme.kbdgen''] init) = SystemExit 2
   \<and> new_events init (snd (run_cli example_world [Pos ''sme.kbdgen''] init)) = []"
proof -
  have "parse_args (gen_keys example_world) (readable example_world) [Pos ''sme.kbdgen'']
          = Inl (Exit_error (Required [''target'']))"
    by (simp add: parse_eval world_eval)
  then show ?thesis
    by (simp add: run_cli_def new_events_def)
qed

text \<open>
  C2, amended. When \<open>parse_args\<close> exits, \<open>run_cli\<close> ends with that exit and an unchanged
  state. When \<open>parse_args\<close> returns, the first events of \<open>run_cli\<close> are the diagnostics
  (interpreter version, platform, every environment variable), logged at debug level;
  nothing is logged at debug level after them, so they appear once; and the call of the
  project parser comes after them, however the call ends.
\<close>

theorem diagnostics_after_parse_args:
  "(parse_args (gen_keys w) (readable w) cli_args = Inl e
      \<longrightarrow> run_cli w cli_args s = (SystemExit (exit_status e), s))
   \<and> (parse_args (gen_keys w) (readable w) cli_args = Inr args
      \<longrightarrow> (\<exists>rest. new_events s (snd (run_cli w cli_args s))
                     = map (Log Debug) (print_diagnostics_lines w) @ rest
                 \<and> debug_logs rest = []
                 \<and> Parse (attr args ''project'') (attr args ''cfg_pairs'') \<in> set rest))"
proof (intro conjI impI)
  assume "parse_args (gen_keys w) (readable w) cli_args = Inl e"
  then show "run_cli w cli_args s = (SystemExit (exit_status e), s)"
    by (simp add: run_cli_def)
next
  assume p: "parse_args (gen_keys w) (readable w) cli_args = Inr args"
  obtain tl where t: "snd (run_args w args s) = emit (preamble w args @ tl) (configured args s)"
    and d: "debug_logs tl = []"
    using run_args_events by blast
  let ?rest = "(if attr args ''logging'' = PyInt 5 then [Get_logger ''urllib3''] else [])
     @ [Parse (attr args ''project'') (attr args ''cfg_pairs'')] @ tl"
  have "new_events s (snd (run_cli w cli_args s))
          = map (Log Debug) (print_diagnostics_lines w) @ ?rest"
    using p t by (simp add: run_cli_def preamble_def)
  moreover have "debug_logs ?rest = []"
    using d by simp
  moreover have "Parse (attr args ''project'') (attr args ''cfg_pairs'') \<in> set ?rest"
    by simp
  ultimately show "\<exists>rest. new_events s (snd (run_cli w cli_args s))
                     = map (Log Debug) (print_diagnostics_lines w) @ rest
                 \<and> debug_logs rest = []
                 \<and> Parse (attr args ''project'') (attr args ''cfg_pairs'') \<in> set rest"
    by blast
qed

theorem diagnostics_after_parse_args_witness:
  "debug_logs (new_events init
      (snd (run_cli example_world [Opt ''-t'' [''android''], Pos ''empty.kbdgen''] init)))
   = [''Python version: '' @ [CHR 0x27] @ ''3.9.1 (default)'' @ [CHR 0x27],
      ''Platform: '' @ [CHR 0x27] @ ''Linux-5.10-x86_64'' @ [CHR 0x27],
      ''Environment:'',
      ''  HOME = '' @ [CHR 0x27] @ ''/root'' @ [CHR 0x27]]"
proof -
  let ?cli = "[Opt ''-t'' [''android''], Pos ''empty.kbdgen'']"
  have "\<exists>args. parse_args (gen_keys example_world) (readable example_world) ?cli = Inr args"
    by (simp add: parse_eval world_eval)
  then obtain args where
    p: "parse_args (gen_keys example_world) (readable example_world) ?cli = Inr args"
    by blast
  from diagnostics_after_parse_args [of example_world ?cli _ init args] p
  obtain rest where
    "new_events init (snd (run_cli example_world ?cli init))
       = map (Log Debug) (print_diagnostics_lines example_world) @ rest"
    and "debug_logs rest = []"
    by blast
  then show ?thesis
    by (simp add: print_diagnostics_lines_def example_world_def)
qed

text \<open>
  C3, as stated, fails twice. After a \<open>KbdgenException\<close> from \<open>generate\<close> (target
  \<open>ios\<close>), \<open>run_cli\<close> logs the error and runs off its end: there is no return value, and
  the exit code is 0, not 1. After another exception (target \<open>win\<close>), the exception
  leaves \<open>run_cli\<close>, and the last event is the call of \<open>generate\<close>: nothing is logged.
\<close>

theorem generate_failure_counterexample:
  "fst (run_cli example_world [Opt ''-t'' [''ios''], Pos ''sme.kbdgen''] init) = Returned None
   \<and> exit_code (fst (run_cli example_world [Opt ''-t'' [''ios''], Pos ''sme.kbdgen''] init)) = 0
   \<and> fst (run_cli example_world [Opt ''-t'' [''win''], Pos ''sme.kbdgen''] init) = Raised crash
   \<and> last (new_events init
        (snd (run_cli example_world [Opt ''-t'' [''win''], Pos ''sme.kbdgen''] init)))
      = Generate ''.''"
proof -
  obtain ios where
    "parse_args (gen_keys example_world) (readable example_world)
            [Opt ''-t'' [''ios''], Pos ''sme.kbdgen''] = Inr ios"
    "attr ios ''project'' = PyStr ''sme.kbdgen''" "attr ios ''target'' = PyStr ''ios''"
    "attr ios ''output'' = PyStr ''.''"
    using example_parse [of "''ios''"] by auto
  then have i: "fst (run_cli example_world [Opt ''-t'' [''ios''], Pos ''sme.kbdgen''] init)
      = Returned None"
    by (simp add: run_cli_def run_args_eq dispatch_def example_world_def gen_get_def
          example_generator_def build_error_def)
  obtain win where
    "parse_args (gen_keys example_world) (readable example_world)
            [Opt ''-t'' [''win''], Pos ''sme.kbdgen''] = Inr win"
    "attr win ''project'' = PyStr ''sme.kbdgen''" "attr win ''target'' = PyStr ''win''"
    "attr win ''output'' = PyStr ''.''"
    using example_parse [of "''win''"] by auto
  then have "fst (run_cli example_world [Opt ''-t'' [''win''], Pos ''sme.kbdgen''] init)
      = Raised crash
    \<and> last (new_events init
        (snd (run_cli example_world [Opt ''-t'' [''win''], Pos ''sme.kbdgen''] init)))
      = Generate ''.''"
    by (simp add: run_cli_def run_args_eq dispatch_def example_world_def gen_get_def
          example_generator_def crash_def Exception_def)
  with i show ?thesis by simp
qed

text \<open>
  C3, amended. When \<open>generate\<close> raises a \<open>KbdgenException\<close>, \<open>run_cli\<close> logs it once at
  error level, after the call, and returns instead of raising. When \<open>generate\<close> raises
  anything else, the exception leaves \<open>run_cli\<close> as it is and nothing is logged for it:
  the call of \<open>generate\<close> is the last event.
\<close>

theorem generate_failure:
  assumes "parse_args (gen_keys w) (readable w) cli_args = Inr args"
      and "Parser_parse w (attr args ''project'') (attr args ''cfg_pairs'') = Inr (Some project)"
      and "gen_get w (attr args ''target'') = Some generator"
      and "generator project args = Inr x"
      and "generate x (output_dir x) = Some e"
  shows "(is_KbdgenException e \<longrightarrow>
            (\<exists>r. fst (run_cli w cli_args s) = Returned r)
          \<and> new_events s (snd (run_cli w cli_args s)) =
              preamble w args @
              [Construct (py_str (attr args ''target'')) args, Generate (output_dir x),
               Log Error (exc_str e)])
       \<and> (\<not> is_KbdgenException e \<longrightarrow>
            fst (run_cli w cli_args s) = Raised e
          \<and> new_events s (snd (run_cli w cli_args s)) =
              preamble w args @
              [Construct (py_str (attr args ''target'')) args, Generate (output_dir x)])"
proof -
  have "run_cli w cli_args s = dispatch w args project (emit (preamble w args) (configured args s))"
    using assms(1,2) by (simp add: run_cli_def run_args_eq)
  then show ?thesis
    by (simp add: dispatch_generate_raises [OF assms(3-5)])
qed

theorem generate_failure_witness:
  "(\<exists>r. fst (run_cli example_world [Opt ''-t'' [''ios''], Pos ''sme.kbdgen''] init) = Returned r)
   \<and> last (new_events init
        (snd (run_cli example_world [Opt ''-t'' [''ios''], Pos ''sme.kbdgen''] init)))
      = Log Error ''Build failed''"
proof -
  let ?cli = "[Opt ''-t'' [''ios''], Pos ''sme.kbdgen'']"
  have "\<exists>args. parse_args (gen_keys example_world) (readable example_world) ?cli = Inr args
         \<and> attr args ''project'' = PyStr ''sme.kbdgen''
         \<and> attr args ''target'' = PyStr ''ios''
         \<and> attr args ''output'' = PyStr ''.''"
    by (simp add: parse_eval world_eval)
  then obtain args where
    p: "parse_args (gen_keys example_world) (readable example_world) ?cli = Inr args"
    and a: "attr args ''project'' = PyStr ''sme.kbdgen''"
           "attr args ''target'' = PyStr ''ios''"
           "attr args ''output'' = PyStr ''.''"
    by blast
  let ?x = "\<lparr>output_dir = ''.'', generate = (\<lambda>d. Some build_error)\<rparr>"
  have l: "Parser_parse example_world (attr args ''project'') (attr args ''cfg_pairs'')
             = Inr (Some ''project'')"
    using a by (simp add: example_world_def)
  have g: "gen_get example_world (attr args ''target'') = Some (example_generator (Some build_error))"
    using a by (simp add: example_world_def gen_get_def)
  have c: "example_generator (Some build_error) ''project'' args = Inr ?x"
    using a by (simp add: example_generator_def)
  have r: "generate ?x (output_dir ?x) = Some build_error"
    by simp
  have k: "is_KbdgenException build_error"
    by (simp add: build_error_def)
  have s: "exc_str build_error = ''Build failed''"
    by (simp add: build_error_def Exception_def)
  from generate_failure [of example_world ?cli args "''project''"
      "example_generator (Some build_error)" ?x build_error init] p l g c r k
  show ?thesis
    by (simp add: s)
qed



text \<open>
  C6, as stated, fails: a target that is not a key of the registry is rejected by
  \<open>parse_args\<close> (\<open>choices=gen.keys()\<close>). The invalid target and the valid keys are
  reported by argparse, and \<open>run_cli\<close> ends with \<open>SystemExit(2)\<close>, not with the return
  value 1.
\<close>

theorem unknown_target_counterexample:
  "fst (run_cli example_world [Opt ''-t'' [''symbian''], Pos ''sme.kbdgen''] init) = SystemExit 2
   \<and> exit_code (fst (run_cli example_world [Opt ''-t'' [''symbian''], Pos ''sme.kbdgen''] init))
       = 2"
proof -
  have "parse_args (gen_keys example_world) (readable example_world)
          [Opt ''-t'' [''symbian''], Pos ''sme.kbdgen'']
        = Inl (Exit_error (Invalid_choice [''-t'', ''--target''] ''symbian''
                 [''android'', ''ios'', ''win'']))"
    by (simp add: parse_eval world_eval)
  then show ?thesis
    by (simp add: run_cli_def)
qed

text \<open>
  C6, amended. The target is checked by \<open>parse_args\<close>. When the command line has a
  \<open>-t\<close>/\<open>--target\<close> whose value is not a key of the registry and argparse reads the
  items before it without exiting, \<open>parse_args\<close> ends with the error that reports the
  invalid target together with the keys of the registry, and \<open>run_cli\<close> ends with
  \<open>SystemExit(2)\<close> and an unchanged state: nothing is logged, loaded or constructed.
  Wherever such a \<open>-t\<close>/\<open>--target\<close> stands on the command line, \<open>run_cli\<close> ends with
  the exit of \<open>parse_args\<close> and an unchanged state; the status is 2 when no
  \<open>-h\<close>/\<open>--help\<close>/\<open>--version\<close> is on the command line, and 0 or 2 otherwise. When
  \<open>parse_args\<close> returns, the target is a key of the registry and the lookup in
  \<open>run_cli\<close> succeeds. The check after the lookup, whenever the lookup does fail,
  prints the target and the keys of the registry to \<open>stderr\<close> and returns 1 without
  constructing a generator.
\<close>

theorem unknown_target_rejected:
  "(cli_args = before @ Opt k [t] # after \<and> (k = ''-t'' \<or> k = ''--target'')
      \<and> t \<notin> set (gen_keys w) \<and> consumes (gen_keys w) (readable w) before
      \<longrightarrow> parse_args (gen_keys w) (readable w) cli_args
            = Inl (Exit_error (Invalid_choice [''-t'', ''--target''] t (gen_keys w)))
          \<and> run_cli w cli_args s = (SystemExit 2, s))
   \<and> (Opt k [t] \<in> set cli_args \<and> (k = ''-t'' \<or> k = ''--target'') \<and> t \<notin> set (gen_keys w)
      \<longrightarrow> (\<exists>e. parse_args (gen_keys w) (readable w) cli_args = Inl e
               \<and> run_cli w cli_args s = (SystemExit (exit_status e), s)
               \<and> (exit_status e = 0 \<or> exit_status e = 2)
               \<and> ((\<forall>h vs. Opt h vs \<in> set cli_args
                      \<longrightarrow> h \<noteq> ''-h'' \<and> h \<noteq> ''--help'' \<and> h \<noteq> ''--version'')
                    \<longrightarrow> exit_status e = 2)))
   \<and> (parse_args (gen_keys w) (readable w) cli_args = Inr args
      \<longrightarrow> gen_get w (attr args ''target'') \<noteq> None)
   \<and> (attr args' ''target'' = PyStr t' \<and> gen_get w (PyStr t') = None
      \<longrightarrow> dispatch w args' project s' =
            (Returned (Some 1),
             emit [Print_stderr (''Error: '' @ [CHR 0x27] @ t' @ [CHR 0x27]
                                @ '' is not a valid target.''),
                   Print_stderr (''Valid targets: '' @ str_join '', '' (gen_keys w))] s'))"
proof (intro conjI impI)
  assume a: "cli_args = before @ Opt k [t] # after \<and> (k = ''-t'' \<or> k = ''--target'')
      \<and> t \<notin> set (gen_keys w) \<and> consumes (gen_keys w) (readable w) before"
  then have p: "parse_args (gen_keys w) (readable w) cli_args
            = Inl (Exit_error (Invalid_choice [''-t'', ''--target''] t (gen_keys w)))"
    using parse_args_first_bad_target [of "gen_keys w" "readable w" before k t after] by simp
  then show "parse_args (gen_keys w) (readable w) cli_args
            = Inl (Exit_error (Invalid_choice [''-t'', ''--target''] t (gen_keys w)))" .
  from p show "run_cli w cli_args s = (SystemExit 2, s)"
    by (simp add: run_cli_def)
next
  assume "Opt k [t] \<in> set cli_args \<and> (k = ''-t'' \<or> k = ''--target'') \<and> t \<notin> set (gen_keys w)"
  then obtain e where e: "parse_args (gen_keys w) (readable w) cli_args = Inl e"
    using parse_args_bad_target [of k t cli_args "gen_keys w" "readable w"] by blast
  then have "run_cli w cli_args s = (SystemExit (exit_status e), s)"
    by (simp add: run_cli_def)
  with e exit_status_cases [of e]
       parse_args_error [of "gen_keys w" "readable w" cli_args e]
  show "\<exists>e. parse_args (gen_keys w) (readable w) cli_args = Inl e
               \<and> run_cli w cli_args s = (SystemExit (exit_status e), s)
               \<and> (exit_status e = 0 \<or> exit_status e = 2)
               \<and> ((\<forall>h vs. Opt h vs \<in> set cli_args
                      \<longrightarrow> h \<noteq> ''-h'' \<and> h \<noteq> ''--help'' \<and> h \<noteq> ''--version'')
                    \<longrightarrow> exit_status e = 2)"
    by blast
next
  assume "parse_args (gen_keys w) (readable w) cli_args = Inr args"
  from parse_args_target [OF this] obtain t where
    "t \<in> set (gen_keys w)" "args ''target'' = Some (PyStr t)"
    by blast
  then show "gen_get w (attr args ''target'') \<noteq> None"
    by (simp add: gen_get_def attr_def gen_keys_def map_of_eq_None_iff)
next
  assume a: "attr args' ''target'' = PyStr t' \<and> gen_get w (PyStr t') = None"
  then have "gen_get w (attr args' ''target'') = None"
    by simp
  from dispatch_unknown [OF this, of project s'] a
  show "dispatch w args' project s' =
            (Returned (Some 1),
             emit [Print_stderr (''Error: '' @ [CHR 0x27] @ t' @ [CHR 0x27]
                                @ '' is not a valid target.''),
                   Print_stderr (''Valid targets: '' @ str_join '', '' (gen_keys w))] s')"
    by simp
qed

theorem unknown_target_rejected_witness:
  "parse_args (gen_keys example_world) (readable example_world)
      [Opt ''--logging'' [''debug''], Opt ''-t'' [''symbian''], Pos ''sme.kbdgen'']
     = Inl (Exit_error (Invalid_choice [''-t'', ''--target''] ''symbian''
              [''android'', ''ios'', ''win'']))
   \<and> run_cli example_world
        [Opt ''--logging'' [''debug''], Opt ''-t'' [''symbian''], Pos ''sme.kbdgen''] init
     = (SystemExit 2, init)"
proof -
  have c: "consumes (gen_keys example_world) (readable example_world)
             [Opt ''--logging'' [''debug'']]"
    by (simp add: consumes_def parse_eval world_eval)
  have "[Opt ''--logging'' [''debug''], Opt ''-t'' [''symbian''], Pos ''sme.kbdgen'']
          = [Opt ''--logging'' [''debug'']] @ Opt ''-t'' [''symbian''] # [Pos ''sme.kbdgen'']
      \<and> (''-t'' = ''-t'' \<or> ''-t'' = ''--target'')
      \<and> ''symbian'' \<notin> set (gen_keys example_world)"
    by (simp add: gen_keys_def example_world_def)
  with c unknown_target_rejected [of
      "[Opt ''--logging'' [''debug''], Opt ''-t'' [''symbian''], Pos ''sme.kbdgen'']"
      "[Opt ''--logging'' [''debug'']]" "''-t''" "''symbian''" "[Pos ''sme.kbdgen'']"
      example_world init]
  have "parse_args (gen_keys example_world) (readable example_world)
      [Opt ''--logging'' [''debug''], Opt ''-t'' [''symbian''], Pos ''sme.kbdgen'']
     = Inl (Exit_error (Invalid_choice [''-t'', ''--target''] ''symbian''
              (gen_keys example_world)))
   \<and> run_cli example_world
        [Opt ''--logging'' [''debug''], Opt ''-t'' [''symbian''], Pos ''sme.kbdgen''] init
     = (SystemExit 2, init)"
    by blast
  then show ?thesis
    by (simp add: gen_keys_def example_world_def)
qed

text \<open>
  C1, as stated, fails: with \<open>--dry-run\<close> on the command line, a project that loads and
  a target of the registry, \<open>run_cli\<close> calls \<open>generate\<close>.
\<close>

theorem dry_run_counterexample:
  "generates (new_events init
      (snd (run_cli example_world
             [Opt ''-t'' [''android''], Opt ''--dry-run'' [], Pos ''sme.kbdgen''] init)))
   = [''.'']"
proof -
  let ?cli = "[Opt ''-t'' [''android''], Opt ''--dry-run'' [], Pos ''sme.kbdgen'']"
  have "\<exists>args. parse_args (gen_keys example_world) (readable example_world) ?cli = Inr args
         \<and> attr args ''project'' = PyStr ''sme.kbdgen''
         \<and> attr args ''target'' = PyStr ''android''
         \<and> attr args ''output'' = PyStr ''.''"
    by (simp add: parse_eval world_eval)
  then obtain args where
    p: "parse_args (gen_keys example_world) (readable example_world) ?cli = Inr args"
    and a: "attr args ''project'' = PyStr ''sme.kbdgen''"
           "attr args ''target'' = PyStr ''android''"
           "attr args ''output'' = PyStr ''.''"
    by blast
  then show ?thesis
    by (simp add: run_cli_def run_args_eq dispatch_def example_world_def gen_get_def
          example_generator_def)
qed

text \<open>
  C1, amended. \<open>run_cli\<close> does not look at \<open>--dry-run\<close>: the flag is stored as
  \<open>True\<close> in the options and handed to the constructor of the generator with them.
  With the flag on the command line, when the project loads, the target resolves and
  the constructor returns an instance, \<open>generate\<close> is called exactly once all the same.
\<close>

theorem dry_run_forwarded:
  assumes "Opt k vs \<in> set cli_args" and "k = ''-D'' \<or> k = ''--dry-run''"
      and "parse_args (gen_keys w) (readable w) cli_args = Inr args"
      and "Parser_parse w (attr args ''project'') (attr args ''cfg_pairs'') = Inr (Some project)"
      and "gen_get w (attr args ''target'') = Some generator"
      and "generator project args = Inr x"
  shows "attr args ''dry_run'' = PyBool True
       \<and> constructed_option ''dry_run'' (new_events s (snd (run_cli w cli_args s)))
           = [Some (PyBool True)]
       \<and> generates (new_events s (snd (run_cli w cli_args s))) = [output_dir x]"
proof -
  have d: "args ''dry_run'' = Some (PyBool True)"
    using parse_args_dry_run [OF assms(3,1,2)] .
  have "run_cli w cli_args s = dispatch w args project (emit (preamble w args) (configured args s))"
    using assms(3,4) by (simp add: run_cli_def run_args_eq)
  moreover obtain out tl where
    "dispatch w args project (emit (preamble w args) (configured args s)) =
       (out, emit (Construct (py_str (attr args ''target'')) args # Generate (output_dir x) # tl)
               (emit (preamble w args) (configured args s)))"
    and "constructs tl = []" "generates tl = []"
    using dispatch_generates [of w args generator project x
            "emit (preamble w args) (configured args s)"] assms(5,6)
    by blast
  ultimately show ?thesis
    using d by (simp add: attr_def constructed_option_no_constructs)
qed

theorem dry_run_forwarded_witness:
  "constructed_option ''dry_run'' (new_events init
      (snd (run_cli example_world
             [Opt ''-t'' [''android''], Opt ''-D'' [], Pos ''sme.kbdgen''] init)))
     = [Some (PyBool True)]
   \<and> generates (new_events init
      (snd (run_cli example_world
             [Opt ''-t'' [''android''], Opt ''-D'' [], Pos ''sme.kbdgen''] init)))
     = [''.'']"
proof -
  let ?cli = "[Opt ''-t'' [''android''], Opt ''-D'' [], Pos ''sme.kbdgen'']"
  have "\<exists>args. parse_args (gen_keys example_world) (readable example_world) ?cli = Inr args
         \<and> attr args ''project'' = PyStr ''sme.kbdgen''
         \<and> attr args ''target'' = PyStr ''android''
         \<and> attr args ''output'' = PyStr ''.''"
    by (simp add: parse_eval world_eval)
  then obtain args where
    p: "parse_args (gen_keys example_world) (readable example_world) ?cli = Inr args"
    and a: "attr args ''project'' = PyStr ''sme.kbdgen''"
           "attr args ''target'' = PyStr ''android''"
           "attr args ''output'' = PyStr ''.''"
    by blast
  let ?x = "\<lparr>output_dir = ''.'', generate = (\<lambda>d. None)\<rparr>"
  have i: "Opt ''-D'' [] \<in> set ?cli" "''-D'' = ''-D'' \<or> ''-D'' = ''--dry-run''"
    by simp_all
  have l: "Parser_parse example_world (attr args ''project'') (attr args ''cfg_pairs'')
             = Inr (Some ''project'')"
    using a by (simp add: example_world_def)
  have g: "gen_get example_world (attr args ''target'') = Some (example_generator None)"
    using a by (simp add: example_world_def gen_get_def)
  have c: "example_generator None ''project'' args = Inr ?x"
    using a by (simp add: example_generator_def)
  from dry_run_forwarded [of "''-D''" "[]" ?cli example_world args "''project''"
        "example_generator None" ?x init] i p l g c
  show ?thesis by simp
qed

text \<open>
  C10, as stated, fails: the level is one of the options that \<open>run_cli\<close> hands to the
  constructor of the generator, so two levels other than 5 are told apart there.
\<close>

theorem logging_level_counterexample:
  "constructed_option ''logging'' (new_events init
      (snd (run_cli example_world
             [Opt ''--logging'' [''debug''], Opt ''-t'' [''android''], Pos ''sme.kbdgen''] init)))
     = [Some (PyInt 10)]
   \<and> constructed_option ''logging'' (new_events init
      (snd (run_cli example_world
             [Opt ''--logging'' [''warning''], Opt ''-t'' [''android''], Pos ''sme.kbdgen''] init)))
     = [Some (PyInt 30)]"
proof -
  have "\<exists>args. parse_args (gen_keys example_world) (readable example_world)
            [Opt ''--logging'' [''debug''], Opt ''-t'' [''android''], Pos ''sme.kbdgen''] = Inr args
         \<and> attr args ''project'' = PyStr ''sme.kbdgen''
         \<and> attr args ''target'' = PyStr ''android''
         \<and> attr args ''output'' = PyStr ''.''
         \<and> args ''logging'' = Some (PyInt 10)"
    by (simp add: parse_eval world_eval)
  then obtain args where
    "parse_args (gen_keys example_world) (readable example_world)
            [Opt ''--logging'' [''debug''], Opt ''-t'' [''android''], Pos ''sme.kbdgen''] = Inr args"
    "attr args ''project'' = PyStr ''sme.kbdgen''" "attr args ''target'' = PyStr ''android''"
    "attr args ''output'' = PyStr ''.''" "args ''logging'' = Some (PyInt 10)"
    by blast
  then have 1: "constructed_option ''logging'' (new_events init
      (snd (run_cli example_world
             [Opt ''--logging'' [''debug''], Opt ''-t'' [''android''], Pos ''sme.kbdgen''] init)))
     = [Some (PyInt 10)]"
    by (simp add: run_cli_def run_args_eq dispatch_def example_world_def gen_get_def
          example_generator_def)
  have "\<exists>args. parse_args (gen_keys example_world) (readable example_world)
            [Opt ''--logging'' [''warning''], Opt ''-t'' [''android''], Pos ''sme.kbdgen''] = Inr args
         \<and> attr args ''project'' = PyStr ''sme.kbdgen''
         \<and> attr args ''target'' = PyStr ''android''
         \<and> attr args ''output'' = PyStr ''.''
         \<and> args ''logging'' = Some (PyInt 30)"
    by (simp add: parse_eval world_eval)
  then obtain args where
    "parse_args (gen_keys example_world) (readable example_world)
            [Opt ''--logging'' [''warning''], Opt ''-t'' [''android''], Pos ''sme.kbdgen''] = Inr args"
    "attr args ''project'' = PyStr ''sme.kbdgen''" "attr args ''target'' = PyStr ''android''"
    "attr args ''output'' = PyStr ''.''" "args ''logging'' = Some (PyInt 30)"
    by blast
  then have "constructed_option ''logging'' (new_events init
      (snd (run_cli example_world
             [Opt ''--logging'' [''warning''], Opt ''-t'' [''android''], Pos ''sme.kbdgen''] init)))
     = [Some (PyInt 30)]"
    by (simp add: run_cli_def run_args_eq dispatch_def example_world_def gen_get_def
          example_generator_def)
  with 1 show ?thesis by simp
qed

text \<open>
  C10, amended. \<open>run_cli\<close> never changes the level of the logger. The parsed level has
  two effects. When it is 5, \<open>HTTPConnection.debuglevel\<close> is set to 1 and the
  \<open>urllib3\<close> logger is fetched, after the diagnostics and before the project parser is
  called; for any other level the debug level stays as it was. And the level is handed
  unchanged to the constructor of the generator as the option \<open>logging\<close>, whenever the
  project loads and the target resolves. Nothing else depends on it: two command lines
  whose namespaces differ in the level only, neither or both at 5, end the same way and
  give the same events up to the options of the construction, provided the constructor
  returns the same for both.
\<close>

theorem logging_level_effect:
  assumes "parse_args (gen_keys w) (readable w) cli_args = Inr args"
      and "parse_args (gen_keys w) (readable w) cli_args' = Inr args'"
      and "\<forall>name. name \<noteq> ''logging'' \<longrightarrow> args' name = args name"
      and "(attr args' ''logging'' = PyInt 5) = (attr args ''logging'' = PyInt 5)"
      and "\<forall>generator project. gen_get w (attr args ''target'') = Some generator
                 \<longrightarrow> generator project args' = generator project args"
  shows "logger_level (snd (run_cli w cli_args s)) = logger_level s
       \<and> debuglevel (snd (run_cli w cli_args s))
           = (if attr args ''logging'' = PyInt 5 then 1 else debuglevel s)
       \<and> (\<exists>tl. new_events s (snd (run_cli w cli_args s))
                 = map (Log Debug) (print_diagnostics_lines w)
                   @ (if attr args ''logging'' = PyInt 5 then [Get_logger ''urllib3''] else [])
                   @ Parse (attr args ''project'') (attr args ''cfg_pairs'') # tl)
       \<and> (Parser_parse w (attr args ''project'') (attr args ''cfg_pairs'') = Inr (Some project)
            \<and> gen_get w (attr args ''target'') = Some generator
          \<longrightarrow> constructed_option ''logging'' (new_events s (snd (run_cli w cli_args s)))
                = [args ''logging''])
       \<and> fst (run_cli w cli_args' s) = fst (run_cli w cli_args s)
       \<and> map erase_options (new_events s (snd (run_cli w cli_args' s)))
           = map erase_options (new_events s (snd (run_cli w cli_args s)))"
proof -
  obtain tl where t: "snd (run_args w args s) = emit (preamble w args @ tl) (configured args s)"
    using run_args_events by blast
  have r: "run_cli w cli_args s = run_args w args s" "run_cli w cli_args' s = run_args w args' s"
    using assms(1,2) by (simp_all add: run_cli_def)
  have 1: "logger_level (snd (run_cli w cli_args s)) = logger_level s"
    by (simp add: r t configured_def)
  have 2: "debuglevel (snd (run_cli w cli_args s))
           = (if attr args ''logging'' = PyInt 5 then 1 else debuglevel s)"
    by (simp add: r t configured_def)
  have "new_events s (snd (run_cli w cli_args s))
                 = map (Log Debug) (print_diagnostics_lines w)
                   @ (if attr args ''logging'' = PyInt 5 then [Get_logger ''urllib3''] else [])
                   @ Parse (attr args ''project'') (attr args ''cfg_pairs'') # tl"
    by (simp add: r t preamble_def)
  then have 3: "\<exists>tl. new_events s (snd (run_cli w cli_args s))
                 = map (Log Debug) (print_diagnostics_lines w)
                   @ (if attr args ''logging'' = PyInt 5 then [Get_logger ''urllib3''] else [])
                   @ Parse (attr args ''project'') (attr args ''cfg_pairs'') # tl"
    by blast
  have 4: "constructed_option ''logging'' (new_events s (snd (run_cli w cli_args s)))
                = [args ''logging'']"
    if "Parser_parse w (attr args ''project'') (attr args ''cfg_pairs'') = Inr (Some project)
            \<and> gen_get w (attr args ''target'') = Some generator"
    using run_cli_constructed_option [of w cli_args args project generator "''logging''" s]
      assms(1) that
    by simp
  have 5: "fst (run_cli w cli_args' s) = fst (run_cli w cli_args s)
       \<and> map erase_options (new_events s (snd (run_cli w cli_args' s)))
           = map erase_options (new_events s (snd (run_cli w cli_args s)))"
    using run_args_options [OF assms(3,4,5), of s] by (simp add: r)
  from 1 2 3 4 5 show ?thesis
    by blast
qed

theorem logging_level_effect_witness:
  "fst (run_cli example_world
          [Opt ''--logging'' [''warning''], Opt ''-t'' [''android''], Pos ''sme.kbdgen''] init)
     = fst (run_cli example_world
          [Opt ''--logging'' [''debug''], Opt ''-t'' [''android''], Pos ''sme.kbdgen''] init)
   \<and> debuglevel (snd (run_cli example_world
          [Opt ''--logging'' [''debug''], Opt ''-t'' [''android''], Pos ''sme.kbdgen''] init)) = 0
   \<and> logger_level (snd (run_cli example_world
          [Opt ''--logging'' [''debug''], Opt ''-t'' [''android''], Pos ''sme.kbdgen''] init)) = 20
   \<and> constructed_option ''logging'' (new_events init (snd (run_cli example_world
          [Opt ''--logging'' [''debug''], Opt ''-t'' [''android''], Pos ''sme.kbdgen''] init)))
       = [Some (PyInt 10)]
   \<and> debuglevel (snd (run_cli example_world
          [Opt ''--logging'' [''trace''], Opt ''-t'' [''android''], Pos ''sme.kbdgen''] init)) = 1
   \<and> logger_level (snd (run_cli example_world
          [Opt ''--logging'' [''trace''], Opt ''-t'' [''android''], Pos ''sme.kbdgen''] init)) = 20
   \<and> constructed_option ''logging'' (new_events init (snd (run_cli example_world
          [Opt ''--logging'' [''trace''], Opt ''-t'' [''android''], Pos ''sme.kbdgen''] init)))
       = [Some (PyInt 5)]"
proof -
  let ?cli = "[Opt ''--logging'' [''debug''], Opt ''-t'' [''android''], Pos ''sme.kbdgen'']"
  let ?cli' = "[Opt ''--logging'' [''warning''], Opt ''-t'' [''android''], Pos ''sme.kbdgen'']"
  let ?cli5 = "[Opt ''--logging'' [''trace''], Opt ''-t'' [''android''], Pos ''sme.kbdgen'']"
  have "\<exists>args args'.
           parse_args (gen_keys example_world) (readable example_world) ?cli = Inr args
         \<and> parse_args (gen_keys example_world) (readable example_world) ?cli' = Inr args'
         \<and> (\<forall>name. name \<noteq> ''logging'' \<longrightarrow> args' name = args name)
         \<and> args ''logging'' = Some (PyInt 10) \<and> args' ''logging'' = Some (PyInt 30)
         \<and> attr args ''project'' = PyStr ''sme.kbdgen''
         \<and> attr args ''target'' = PyStr ''android''
         \<and> attr args' ''output'' = attr args ''output''"
    by (simp add: parse_eval world_eval)
  then obtain args args' where
    p: "parse_args (gen_keys example_world) (readable example_world) ?cli = Inr args"
    and p': "parse_args (gen_keys example_world) (readable example_world) ?cli' = Inr args'"
    and same: "\<forall>name. name \<noteq> ''logging'' \<longrightarrow> args' name = args name"
    and l: "args ''logging'' = Some (PyInt 10)" "args' ''logging'' = Some (PyInt 30)"
    and a: "attr args ''project'' = PyStr ''sme.kbdgen''" "attr args ''target'' = PyStr ''android''"
    and out: "attr args' ''output'' = attr args ''output''"
    by blast
  have lv: "(attr args' ''logging'' = PyInt 5) = (attr args ''logging'' = PyInt 5)"
    using l by (simp add: attr_def)
  have ctor: "\<forall>generator project. gen_get example_world (attr args ''target'') = Some generator
                 \<longrightarrow> generator project args' = generator project args"
    using out by (auto simp add: gen_get_def example_world_def example_generator_def
                    split: pyval.splits if_splits)
  have ld: "Parser_parse example_world (attr args ''project'') (attr args ''cfg_pairs'')
              = Inr (Some ''project'')
          \<and> gen_get example_world (attr args ''target'') = Some (example_generator None)"
    using a by (simp add: example_world_def gen_get_def)
  have "\<exists>args. parse_args (gen_keys example_world) (readable example_world) ?cli5 = Inr args
         \<and> args ''logging'' = Some (PyInt 5)
         \<and> attr args ''project'' = PyStr ''sme.kbdgen''
         \<and> attr args ''target'' = PyStr ''android''"
    by (simp add: parse_eval world_eval)
  then obtain args5 where
    p5: "parse_args (gen_keys example_world) (readable example_world) ?cli5 = Inr args5"
    and l5: "args5 ''logging'' = Some (PyInt 5)"
    and a5: "attr args5 ''project'' = PyStr ''sme.kbdgen''"
            "attr args5 ''target'' = PyStr ''android''"
    by blast
  have same5: "\<forall>name. name \<noteq> ''logging'' \<longrightarrow> args5 name = args5 name"
    and lv5: "(attr args5 ''logging'' = PyInt 5) = (attr args5 ''logging'' = PyInt 5)"
    and ctor5: "\<forall>generator project. gen_get example_world (attr args5 ''target'') = Some generator
                 \<longrightarrow> generator project args5 = generator project args5"
    by simp_all
  have ld5: "Parser_parse example_world (attr args5 ''project'') (attr args5 ''cfg_pairs'')
              = Inr (Some ''project'')
          \<and> gen_get example_world (attr args5 ''target'') = Some (example_generator None)"
    using a5 by (simp add: example_world_def gen_get_def)
  from logging_level_effect [OF p p' same lv ctor, of init "''project''" "example_generator None"]
       ld l
  have 1: "fst (run_cli example_world ?cli' init) = fst (run_cli example_world ?cli init)
     \<and> debuglevel (snd (run_cli example_world ?cli init)) = 0
     \<and> logger_level (snd (run_cli example_world ?cli init)) = 20
     \<and> constructed_option ''logging'' (new_events init (snd (run_cli example_world ?cli init)))
         = [Some (PyInt 10)]"
    by (simp add: init_def attr_def)
  from logging_level_effect [OF p5 p5 same5 lv5 ctor5, of init "''project''" "example_generator None"]
       ld5 l5
  have 2: "debuglevel (snd (run_cli example_world ?cli5 init)) = 1
     \<and> logger_level (snd (run_cli example_world ?cli5 init)) = 20
     \<and> constructed_option ''logging'' (new_events init (snd (run_cli example_world ?cli5 init)))
         = [Some (PyInt 5)]"
    by (simp add: init_def attr_def)
  from 1 2 show ?thesis
    by simp
qed

text \<open>
  C8. When a list of raw overrides parses, the flattened tree has one pair for each path
  it holds, and a pair of path and value is in it exactly when that value was written to
  that path and no later override wrote to the same path, to a path below it or to a
  path above it: for each path the last write wins, and between a scalar assignment and
  an assignment nested further down the same path the later one wins.
\<close>

theorem last_write_wins:
  assumes "parse_overrides raws = Inr t"
  shows "\<exists>ws. map parse_override raws = map Inr ws
           \<and> distinct (map fst (flatten t))
           \<and> (\<forall>p v. ((p, v) \<in> set (flatten t))
                = (\<exists>before after. ws = before @ (p, v) # after
                     \<and> (\<forall>(q, u)\<in>set after. \<not> conflict q p)))"
proof -
  from assms obtain ws where w: "map parse_override raws = map Inr ws"
    and t: "t = foldl (\<lambda>t (q, v). insert_at q v t) (Tree []) ws"
    using apply_overrides_foldl [of raws "Tree []" t] by (auto simp add: parse_overrides_def)
  have d: "distinct_keys t"
    unfolding t by (rule distinct_keys_foldl) simp
  have "((p, v) \<in> set (flatten t))
          = (\<exists>before after. ws = before @ (p, v) # after \<and> (\<forall>(q, u)\<in>set after. \<not> conflict q p))"
    for p v
    using flatten_lookup [OF d, of p v] lookup_foldl [of "Tree []" ws p v]
    by (simp add: t)
  with w distinct_flatten [OF d] show ?thesis
    by blast
qed

theorem last_write_wins_witness:
  "flatten (Tree [(''a'', Tree [(''b'', Scalar ''2'')])]) = [([''a'', ''b''], ''2'')]
   \<and> distinct (map fst (flatten (Tree [(''a'', Tree [(''b'', Scalar ''2'')])])))"
proof -
  have "parse_overrides [''a=1'', ''a.b=2''] = Inr (Tree [(''a'', Tree [(''b'', Scalar ''2'')])])"
    by (simp add: parse_overrides_def parse_override_def)
  from last_write_wins [OF this] show ?thesis
    by auto
qed

end
